theory Spec2Isabelle
  imports Complex_Main "HOL-Library.Multiset" "HOL-Library.Sublist"
begin

section \<open>Numbers of the host language\<close>

text \<open>
  The services are TypeScript; every number is an IEEE double. The values read from an
  analysis come out of \<^verbatim>\<open>JSON.parse\<close> and are finite, so they are modelled as
  \<^typ>\<open>real\<close> (rounding and the sign of zero are not modelled). A division can leave the
  finite numbers:
  \<^verbatim>\<open>x / 0\<close> is \<^verbatim>\<open>Infinity\<close>, \<^verbatim>\<open>-Infinity\<close> or \<^verbatim>\<open>NaN\<close>, never 0 as in
  HOL. Results of arithmetic are therefore values of \<open>jsnum\<close>.
\<close>

datatype jsnum = Fin real | PosInf | NegInf | NaN

fun js_sub :: "jsnum \<Rightarrow> jsnum \<Rightarrow> jsnum" where
  "js_sub (Fin a) (Fin b) = Fin (a - b)"
| "js_sub NaN _ = NaN"
| "js_sub _ NaN = NaN"
| "js_sub PosInf PosInf = NaN"
| "js_sub NegInf NegInf = NaN"
| "js_sub PosInf _ = PosInf"
| "js_sub NegInf _ = NegInf"
| "js_sub (Fin a) PosInf = NegInf"
| "js_sub (Fin a) NegInf = PosInf"

fun js_div :: "jsnum \<Rightarrow> jsnum \<Rightarrow> jsnum" where
  "js_div (Fin a) (Fin b) =
     (if b \<noteq> 0 then Fin (a / b)
      else if a > 0 then PosInf
      else if a < 0 then NegInf
      else NaN)"
| "js_div NaN _ = NaN"
| "js_div _ NaN = NaN"
| "js_div (Fin a) _ = Fin 0"
| "js_div PosInf (Fin b) = (if b < 0 then NegInf else PosInf)"
| "js_div NegInf (Fin b) = (if b < 0 then PosInf else NegInf)"
| "js_div _ _ = NaN"

fun js_mul :: "jsnum \<Rightarrow> jsnum \<Rightarrow> jsnum" where
  "js_mul (Fin a) (Fin b) = Fin (a * b)"
| "js_mul NaN _ = NaN"
| "js_mul _ NaN = NaN"
| "js_mul PosInf (Fin b) = (if b > 0 then PosInf else if b < 0 then NegInf else NaN)"
| "js_mul NegInf (Fin b) = (if b > 0 then NegInf else if b < 0 then PosInf else NaN)"
| "js_mul (Fin a) PosInf = (if a > 0 then PosInf else if a < 0 then NegInf else NaN)"
| "js_mul (Fin a) NegInf = (if a > 0 then NegInf else if a < 0 then PosInf else NaN)"
| "js_mul PosInf PosInf = PosInf"
| "js_mul NegInf NegInf = PosInf"
| "js_mul PosInf NegInf = NegInf"
| "js_mul NegInf PosInf = NegInf"

text \<open>\<^verbatim>\<open>a > b\<close> on numbers: false whenever an operand is \<^verbatim>\<open>NaN\<close>.\<close>

fun js_gt :: "jsnum \<Rightarrow> jsnum \<Rightarrow> bool" where
  "js_gt (Fin a) (Fin b) = (a > b)"
| "js_gt NaN _ = False"
| "js_gt _ NaN = False"
| "js_gt PosInf PosInf = False"
| "js_gt PosInf _ = True"
| "js_gt _ PosInf = False"
| "js_gt NegInf _ = False"
| "js_gt (Fin a) NegInf = True"

text \<open>
  \<^verbatim>\<open>Math.min(...xs)\<close> and \<^verbatim>\<open>Math.max(...xs)\<close> over finite numbers: the empty
  argument list gives \<^verbatim>\<open>Infinity\<close> and \<^verbatim>\<open>-Infinity\<close>.
\<close>

fun math_min :: "real list \<Rightarrow> jsnum" where
  "math_min [] = PosInf"
| "math_min (x # xs) = (case math_min xs of Fin m \<Rightarrow> Fin (min x m) | _ \<Rightarrow> Fin x)"

fun math_max :: "real list \<Rightarrow> jsnum" where
  "math_max [] = NegInf"
| "math_max (x # xs) = (case math_max xs of Fin m \<Rightarrow> Fin (max x m) | _ \<Rightarrow> Fin x)"

text \<open>
  \<^verbatim>\<open>xs.indexOf(v)\<close>: the first index holding a value strictly equal to \<open>v\<close>, or -1.
  The elements are finite, so no element equals an infinity or \<^verbatim>\<open>NaN\<close>.
\<close>

fun index_from :: "real list \<Rightarrow> real \<Rightarrow> int \<Rightarrow> int" where
  "index_from [] v i = -1"
| "index_from (x # xs) v i = (if x = v then i else index_from xs v (i + 1))"

fun indexOf :: "real list \<Rightarrow> jsnum \<Rightarrow> int" where
  "indexOf xs (Fin v) = index_from xs v 0"
| "indexOf xs _ = -1"

text \<open>
  Optional fields: \<^verbatim>\<open>a.profile?.layer_height\<close> is \<open>None\<close> when the profile or the
  field is missing or \<^verbatim>\<open>null\<close>. A number used as a condition is truthy when it is
  present and not zero; \<^verbatim>\<open>v && p(v)\<close> evaluates \<open>p\<close> only then. \<^verbatim>\<open>v || 0\<close> replaces
  a missing value by 0.
\<close>

definition guarded :: "real option \<Rightarrow> (real \<Rightarrow> bool) \<Rightarrow> bool" where
  "guarded v p = (case v of None \<Rightarrow> False | Some x \<Rightarrow> x \<noteq> 0 \<and> p x)"

definition or_zero :: "real option \<Rightarrow> real" where
  "or_zero v = (case v of None \<Rightarrow> 0 | Some x \<Rightarrow> x)"

section \<open>Data model (shared/types)\<close>

record LayerAnalysis =
  z_height :: real
  thickness :: real

record SlicerProfile =
  layer_height :: "real option"
  extrusion_width :: "real option"
  print_speed :: "real option"
  temperature_nozzle :: "real option"
  temperature_bed :: "real option"
  infill_density :: "real option"
  wall_count :: "real option"

record ExtrusionStats =
  total_filament :: "real option"

record PatternDetection =
  support_detected :: bool
  bridging_detected :: bool

record GeometryAnalysis =
  extrusion_stats :: "ExtrusionStats option"
  time_estimate :: "real option"
  pattern_detection :: "PatternDetection option"

datatype status = Processing | Complete | Error

record AnalysisResult =
  filepath :: string
  profile :: "SlicerProfile option"
  geometry :: "GeometryAnalysis option"
  layers :: "LayerAnalysis list option"
  status :: status

definition profile_field :: "(SlicerProfile \<Rightarrow> real option) \<Rightarrow> AnalysisResult \<Rightarrow> real option" where
  "profile_field f a = Option.bind (profile a) f"

definition geometry_time_estimate :: "AnalysisResult \<Rightarrow> real option" where
  "geometry_time_estimate a = Option.bind (geometry a) time_estimate"

definition geometry_total_filament :: "AnalysisResult \<Rightarrow> real option" where
  "geometry_total_filament a =
     Option.bind (Option.bind (geometry a) extrusion_stats) total_filament"

definition has_support :: "AnalysisResult \<Rightarrow> bool" where
  "has_support a =
     (case Option.bind (geometry a) pattern_detection of
        None \<Rightarrow> False | Some pd \<Rightarrow> support_detected pd)"

definition has_bridging :: "AnalysisResult \<Rightarrow> bool" where
  "has_bridging a =
     (case Option.bind (geometry a) pattern_detection of
        None \<Rightarrow> False | Some pd \<Rightarrow> bridging_detected pd)"

section \<open>ComparisonService\<close>

subsection \<open>calculateQualityScore\<close>

text \<open>
  The source keeps one mutable \<^verbatim>\<open>score\<close>, starting at 100, and runs five independent
  \<^verbatim>\<open>if\<close> statements over it before clamping. Each statement is a function on the score.
\<close>

definition penalize_thick_layers :: "AnalysisResult \<Rightarrow> real \<Rightarrow> real" where
  "penalize_thick_layers a score =
     (if guarded (profile_field layer_height a) (\<lambda>h. h > 0.3) then score - 10 else score)"

definition penalize_low_infill :: "AnalysisResult \<Rightarrow> real \<Rightarrow> real" where
  "penalize_low_infill a score =
     (if guarded (profile_field infill_density a) (\<lambda>d. d < 10) then score - 15 else score)"

definition penalize_support :: "AnalysisResult \<Rightarrow> real \<Rightarrow> real" where
  "penalize_support a score = (if has_support a then score - 5 else score)"

definition penalize_bridging :: "AnalysisResult \<Rightarrow> real \<Rightarrow> real" where
  "penalize_bridging a score = (if has_bridging a then score - 10 else score)"

definition bonus_optimal_layers :: "AnalysisResult \<Rightarrow> real \<Rightarrow> real" where
  "bonus_optimal_layers a score =
     (if guarded (profile_field layer_height a) (\<lambda>h. h \<ge> 0.15 \<and> h \<le> 0.25)
      then score + 5 else score)"

definition calculateQualityScore :: "AnalysisResult \<Rightarrow> real" where
  "calculateQualityScore a =
     (let score = 100;
          score = penalize_thick_layers a score;
          score = penalize_low_infill a score;
          score = penalize_support a score;
          score = penalize_bridging a score;
          score = bonus_optimal_layers a score
      in max 0 (min 100 score))"

subsection \<open>generateComparison\<close>

text \<open>
  Only the \<^verbatim>\<open>metrics\<close> object is modelled: the file names, the recommendation
  sentences and the summary are strings rendered from the analyses and from these metrics.
  The blocks for \<^verbatim>\<open>print_time\<close> and \<^verbatim>\<open>material_usage\<close> are the same code over two
  different value lists; \<open>lower_wins\<close> is that block.
\<close>

record Metric =
  metric_values :: "real list"
  winner :: int
  difference :: jsnum

datatype layer_comparison =
  SameLayerCount | SignificantVariation jsnum | ModerateVariation jsnum | MinorVariation jsnum

record LayerCountMetric =
  layer_values :: "real list"
  comparison :: layer_comparison

record ComparisonMetrics =
  print_time :: "Metric option"
  material_usage :: "Metric option"
  layer_count :: "LayerCountMetric option"
  quality_score :: "Metric option"

definition lower_wins :: "real list \<Rightarrow> Metric" where
  "lower_wins vs =
     \<lparr>metric_values = vs,
      winner = indexOf vs (math_min vs),
      difference =
        (if length vs > 1
         then js_mul (js_div (js_sub (math_max vs) (math_min vs)) (math_min vs)) (Fin 100)
         else Fin 0)\<rparr>"

definition higher_wins :: "real list \<Rightarrow> Metric" where
  "higher_wins vs =
     \<lparr>metric_values = vs,
      winner = indexOf vs (math_max vs),
      difference =
        (if length vs > 1
         then js_mul (js_div (js_sub (math_max vs) (math_min vs)) (math_max vs)) (Fin 100)
         else Fin 0)\<rparr>"

definition compareLayerCounts :: "real list \<Rightarrow> layer_comparison" where
  "compareLayerCounts layerCounts =
     (let mn = math_min layerCounts; mx = math_max layerCounts
      in if mn = mx then SameLayerCount
         else let diff = js_sub mx mn; percentDiff = js_mul (js_div diff mn) (Fin 100)
              in if js_gt percentDiff (Fin 50) then SignificantVariation diff
                 else if js_gt percentDiff (Fin 20) then ModerateVariation diff
                 else MinorVariation diff)"

definition layers_length :: "AnalysisResult \<Rightarrow> real" where
  "layers_length a = (case layers a of None \<Rightarrow> 0 | Some ls \<Rightarrow> real (length ls))"

definition generateComparison :: "AnalysisResult list \<Rightarrow> string list \<Rightarrow> ComparisonMetrics" where
  "generateComparison analyses metrics =
     \<lparr>print_time =
        (if ''printTime'' \<in> set metrics
         then Some (lower_wins (map (\<lambda>a. or_zero (geometry_time_estimate a)) analyses))
         else None),
      material_usage =
        (if ''material'' \<in> set metrics
         then Some (lower_wins (map (\<lambda>a. or_zero (geometry_total_filament a)) analyses))
         else None),
      layer_count =
        (if ''layers'' \<in> set metrics
         then Some \<lparr>layer_values = map layers_length analyses,
                    comparison = compareLayerCounts (map layers_length analyses)\<rparr>
         else None),
      quality_score =
        (if ''quality'' \<in> set metrics
         then Some (higher_wins (map calculateQualityScore analyses))
         else None)\<rparr>"

subsection \<open>compare\<close>





subsection \<open>The specification's formulas\<close>

text \<open>
  The convention stated for the difference: (max - min) / min * 100, and 0 when the
  minimum is 0.
\<close>

definition spec_difference :: "real list \<Rightarrow> jsnum" where
  "spec_difference vs =
     (if Min (set vs) = 0 then Fin 0
      else Fin ((Max (set vs) - Min (set vs)) / Min (set vs) * 100))"

text \<open>
  The quality score as the specification words it: the tests on layer height and infill
  density are plain comparisons on the value.
\<close>

definition spec_quality_score :: "AnalysisResult \<Rightarrow> real" where
  "spec_quality_score a =
     max 0 (min 100
       (100
        - (if (\<exists>h. profile_field layer_height a = Some h \<and> h > 0.3) then 10 else 0)
        - (if (\<exists>d. profile_field infill_density a = Some d \<and> d < 10) then 15 else 0)
        - (if has_support a then 5 else 0)
        - (if has_bridging a then 10 else 0)
        + (if (\<exists>h. profile_field layer_height a = Some h \<and> 0.15 \<le> h \<and> h \<le> 0.25)
           then 5 else 0)))"

section \<open>OptimizationService\<close>

text \<open>
  Suggestion texts are template strings. A text is kept as its list of pieces: literal
  text, an interpolated number, a number printed with \<^verbatim>\<open>toFixed(n)\<close>, and the degree
  sign. Printing numbers is not modelled.
\<close>

datatype fragment = Str string | Num jsnum | Fixed nat jsnum | Degree

datatype category = Speed | Material | Quality | Safety

datatype impact = High | Medium | Low

record OptimizationSuggestion =
  category :: category
  title :: string
  description :: "fragment list"
  impact :: impact
  time_saving :: "fragment list option"
  material_saving :: "fragment list option"
  implementation :: "fragment list option"
  potential_issues :: "string list"

record Constraints =
  maxPrintTime :: "real option"
  minQuality :: "real option"
  maxMaterial :: "real option"

record OptimizationProfile =
  priority :: string
  constraints :: "Constraints option"

definition truthy :: "real option \<Rightarrow> bool" where
  "truthy v = (case v of None \<Rightarrow> False | Some x \<Rightarrow> x \<noteq> 0)"

definition constraint_field ::
  "(Constraints \<Rightarrow> real option) \<Rightarrow> OptimizationProfile \<Rightarrow> real option" where
  "constraint_field f p = Option.bind (constraints p) f"

subsection \<open>calculateLayerHeightTimeSaving and formatTime\<close>

definition calculateLayerHeightTimeSaving :: "real \<Rightarrow> real \<Rightarrow> real \<Rightarrow> jsnum" where
  "calculateLayerHeightTimeSaving currentHeight newHeight currentTime =
     (let ratio = js_div (Fin currentHeight) (Fin newHeight);
          newTime = js_div (Fin currentTime) ratio
      in js_div (js_sub (Fin currentTime) newTime) (Fin 60))"

text \<open>
  \<^verbatim>\<open>formatTime\<close> is only called with more than 24 hours of seconds, where the remainder
  operator agrees with the remainder of flooring division.
\<close>

definition formatTime :: "real \<Rightarrow> fragment list" where
  "formatTime seconds =
     (let hours = \<lfloor>seconds / 3600\<rfloor>;
          minutes = \<lfloor>(seconds - 3600 * of_int hours) / 60\<rfloor>
      in if hours > 24
         then [Num (Fin (of_int (hours div 24))), Str ''d '',
               Num (Fin (of_int (hours mod 24))), Str ''h'']
         else if hours > 0
         then [Num (Fin (of_int hours)), Str ''h '', Num (Fin (of_int minutes)), Str ''m'']
         else [Num (Fin (of_int minutes)), Str ''m''])"

subsection \<open>The rules\<close>

text \<open>
  Every generator starts from an empty array and runs its \<^verbatim>\<open>if\<close> statements in order;
  each statement pushes at most one suggestion. A statement is modelled as the list it
  appends, a generator as the concatenation in source order.
\<close>

definition speed_layer_height :: "AnalysisResult \<Rightarrow> OptimizationSuggestion list" where
  "speed_layer_height a =
     (case profile_field layer_height a of
        None \<Rightarrow> []
      | Some h \<Rightarrow>
          if h \<noteq> 0 \<and> h < 0.2 then
            [\<lparr>category = Speed, title = ''Increase Layer Height'',
              description = [Str ''Current layer height is '', Num (Fin h),
                Str ''mm. Increasing to 0.25mm would reduce print time significantly.''],
              impact = High,
              time_saving = Some [Str ''~'',
                Fixed 0 (calculateLayerHeightTimeSaving h 0.25 (or_zero (geometry_time_estimate a))),
                Str '' minutes''],
              material_saving = None,
              implementation = Some [Str ''Change layer height to 0.25mm in slicer settings''],
              potential_issues = [''Slightly reduced surface quality'',
                ''Less detail on vertical surfaces'']\<rparr>]
          else [])"

definition speed_infill :: "AnalysisResult \<Rightarrow> OptimizationSuggestion list" where
  "speed_infill a =
     (case profile_field infill_density a of
        None \<Rightarrow> []
      | Some d \<Rightarrow>
          if d \<noteq> 0 \<and> d > 25 then
            [\<lparr>category = Speed, title = ''Reduce Infill Density'',
              description = [Str ''Current infill is '', Num (Fin d),
                Str ''%. Reducing to 20% maintains strength while reducing print time.''],
              impact = Medium,
              time_saving = Some [Str ''~15-25%''],
              material_saving = None,
              implementation = Some [Str ''Set infill density to 20% in slicer''],
              potential_issues = [''Slightly reduced strength'',
                ''May affect top surface quality'']\<rparr>]
          else [])"

definition speed_print_speed :: "AnalysisResult \<Rightarrow> OptimizationSuggestion list" where
  "speed_print_speed a =
     (case profile_field print_speed a of
        None \<Rightarrow> []
      | Some v \<Rightarrow>
          if v \<noteq> 0 \<and> v < 50 then
            [\<lparr>category = Speed, title = ''Increase Print Speed'',
              description = [Str ''Current print speed is '', Num (Fin v),
                Str ''mm/s. Can safely increase to 60mm/s for most materials.''],
              impact = Medium,
              time_saving = Some [Str ''~20%''],
              material_saving = None,
              implementation = Some [Str ''Increase print speed in slicer settings''],
              potential_issues = [''May reduce quality if printer cannot handle higher speeds'',
                ''Check printer capabilities'']\<rparr>]
          else [])"

definition speed_support :: "AnalysisResult \<Rightarrow> OptimizationSuggestion list" where
  "speed_support a =
     (if has_support a then
        [\<lparr>category = Speed, title = ''Optimize Support Settings'',
          description = [Str ''Supports detected. Consider reducing support density or using tree supports for faster printing.''],
          impact = Medium,
          time_saving = Some [Str ''~10-30%''],
          material_saving = None,
          implementation = Some [Str ''Reduce support density to 15% or switch to tree supports''],
          potential_issues = [''May require more careful part orientation'',
            ''Verify support effectiveness'']\<rparr>]
      else [])"

definition generateSpeedOptimizations :: "AnalysisResult \<Rightarrow> OptimizationSuggestion list" where
  "generateSpeedOptimizations a =
     speed_layer_height a @ speed_infill a @ speed_print_speed a @ speed_support a"

definition quality_layer_height :: "AnalysisResult \<Rightarrow> OptimizationSuggestion list" where
  "quality_layer_height a =
     (case profile_field layer_height a of
        None \<Rightarrow> []
      | Some h \<Rightarrow>
          if h \<noteq> 0 \<and> h > 0.2 then
            [\<lparr>category = Quality, title = ''Reduce Layer Height'',
              description = [Str ''Current layer height is '', Num (Fin h),
                Str ''mm. Reducing to 0.15mm will improve surface quality.''],
              impact = High,
              time_saving = None,
              material_saving = None,
              implementation = Some [Str ''Set layer height to 0.15mm in slicer''],
              potential_issues = [''Increased print time (~50%)'',
                ''Higher chance of print failures'']\<rparr>]
          else [])"

definition quality_print_speed :: "AnalysisResult \<Rightarrow> OptimizationSuggestion list" where
  "quality_print_speed a =
     (case profile_field print_speed a of
        None \<Rightarrow> []
      | Some v \<Rightarrow>
          if v \<noteq> 0 \<and> v > 60 then
            [\<lparr>category = Quality, title = ''Reduce Print Speed'',
              description = [Str ''Current speed is '', Num (Fin v),
                Str ''mm/s. Reducing to 40mm/s will improve quality.''],
              impact = Medium,
              time_saving = None,
              material_saving = None,
              implementation = Some [Str ''Reduce print speed to 40mm/s''],
              potential_issues = [''Increased print time (~30%)'',
                ''May require temperature adjustments'']\<rparr>]
          else [])"

definition quality_wall_count :: "AnalysisResult \<Rightarrow> OptimizationSuggestion list" where
  "quality_wall_count a =
     (case profile_field wall_count a of
        None \<Rightarrow> []
      | Some w \<Rightarrow>
          if w \<noteq> 0 \<and> w < 3 then
            [\<lparr>category = Quality, title = ''Increase Wall Count'',
              description = [Str ''Current wall count is '', Num (Fin w),
                Str ''. Increasing to 3 walls improves strength and surface quality.''],
              impact = Medium,
              time_saving = None,
              material_saving = None,
              implementation = Some [Str ''Set wall count to 3 in slicer settings''],
              potential_issues = [''Increased material usage'', ''Longer print time'']\<rparr>]
          else [])"

definition quality_temperature :: "AnalysisResult \<Rightarrow> OptimizationSuggestion list" where
  "quality_temperature a =
     (case profile_field temperature_nozzle a of
        None \<Rightarrow> []
      | Some temp \<Rightarrow>
          if temp \<noteq> 0 then
            (if temp > 220 then
               [\<lparr>category = Quality, title = ''Optimize Temperature'',
                 description = [Str ''Nozzle temperature is '', Num (Fin temp), Degree,
                   Str ''C. Consider lowering for better surface quality.''],
                 impact = Medium,
                 time_saving = None,
                 material_saving = None,
                 implementation = Some [Str ''Reduce nozzle temperature by 5-10'', Degree, Str ''C''],
                 potential_issues = [''May cause under-extrusion'',
                   ''Test on small part first'']\<rparr>]
             else [])
          else [])"

definition generateQualityOptimizations :: "AnalysisResult \<Rightarrow> OptimizationSuggestion list" where
  "generateQualityOptimizations a =
     quality_layer_height a @ quality_print_speed a @ quality_wall_count a
       @ quality_temperature a"

definition material_infill :: "AnalysisResult \<Rightarrow> OptimizationSuggestion list" where
  "material_infill a =
     (case profile_field infill_density a of
        None \<Rightarrow> []
      | Some d \<Rightarrow>
          if d \<noteq> 0 \<and> d > 20 then
            (let currentMaterial = or_zero (geometry_total_filament a);
                 savings = js_mul (js_div (Fin (d - 15)) (Fin d)) (Fin 0.7)
             in [\<lparr>category = Material, title = ''Reduce Infill Density'',
                  description = [Str ''Current infill is '', Num (Fin d),
                    Str ''%. Reducing to 15% maintains adequate strength for most parts.''],
                  impact = High,
                  time_saving = None,
                  material_saving = Some [Str ''~'',
                    Fixed 1 (js_mul (Fin currentMaterial) savings), Str ''m filament''],
                  implementation = Some [Str ''Set infill density to 15% in slicer''],
                  potential_issues = [''Reduced strength'', ''May affect bridging quality'']\<rparr>])
          else [])"

definition material_wall_thickness :: "AnalysisResult \<Rightarrow> OptimizationSuggestion list" where
  "material_wall_thickness a =
     (if truthy (profile_field extrusion_width a) \<and> truthy (profile_field wall_count a) then
        (let wallThickness =
               or_zero (profile_field extrusion_width a) * or_zero (profile_field wall_count a)
         in if wallThickness > 1.6 then
              [\<lparr>category = Material, title = ''Optimize Wall Thickness'',
                description = [Str ''Current wall thickness is '', Fixed 2 (Fin wallThickness),
                  Str ''mm. Can reduce without affecting strength significantly.''],
                impact = Medium,
                time_saving = None,
                material_saving = Some [Str ''~10-15%''],
                implementation = Some [Str ''Reduce wall count by 1 or decrease extrusion width''],
                potential_issues = [''Slightly reduced strength'',
                  ''May affect surface quality'']\<rparr>]
            else [])
      else [])"

definition material_support :: "AnalysisResult \<Rightarrow> OptimizationSuggestion list" where
  "material_support a =
     (if has_support a then
        [\<lparr>category = Material, title = ''Minimize Support Material'',
          description = [Str ''Optimize part orientation to reduce support material usage.''],
          impact = Medium,
          time_saving = None,
          material_saving = Some [Str ''~20-40%''],
          implementation = Some [Str ''Rotate part to minimize overhangs, use tree supports''],
          potential_issues = [''May require design changes'',
            ''Verify structural integrity'']\<rparr>]
      else [])"

definition material_hollow :: "AnalysisResult \<Rightarrow> OptimizationSuggestion list" where
  "material_hollow a =
     (let volume = or_zero (geometry_total_filament a)
      in if volume > 100 then
           [\<lparr>category = Material, title = ''Consider Hollow Design'',
             description = [Str ''For large parts, consider making hollow with drainage holes to save material.''],
             impact = High,
             time_saving = None,
             material_saving = Some [Str ''~30-70%''],
             implementation = Some [Str ''Modify design to create hollow interior with wall thickness 2-3mm''],
             potential_issues = [''Requires design changes'', ''May need internal supports'']\<rparr>]
         else [])"

definition generateMaterialOptimizations :: "AnalysisResult \<Rightarrow> OptimizationSuggestion list" where
  "generateMaterialOptimizations a =
     material_infill a @ material_wall_thickness a @ material_support a @ material_hollow a"

definition safety_nozzle :: "AnalysisResult \<Rightarrow> OptimizationSuggestion list" where
  "safety_nozzle a =
     (case profile_field temperature_nozzle a of
        None \<Rightarrow> []
      | Some temp \<Rightarrow>
          if temp \<noteq> 0 \<and> temp > 250 then
            [\<lparr>category = Safety, title = ''High Temperature Warning'',
              description = [Str ''Nozzle temperature is '', Num (Fin temp), Degree,
                Str ''C. Ensure proper ventilation and safety precautions.''],
              impact = High,
              time_saving = None,
              material_saving = None,
              implementation = Some [Str ''Verify material requirements, ensure proper ventilation''],
              potential_issues = [''Risk of burns'', ''Potential toxic fumes'',
                ''Increased wear on hotend'']\<rparr>]
          else [])"

definition safety_bed :: "AnalysisResult \<Rightarrow> OptimizationSuggestion list" where
  "safety_bed a =
     (case profile_field temperature_bed a of
        None \<Rightarrow> []
      | Some temp \<Rightarrow>
          if temp \<noteq> 0 \<and> temp > 100 then
            [\<lparr>category = Safety, title = ''High Bed Temperature Warning'',
              description = [Str ''Bed temperature is '', Num (Fin temp), Degree,
                Str ''C. High temperatures may warp build surface or cause burns.''],
              impact = Medium,
              time_saving = None,
              material_saving = None,
              implementation = Some [Str ''Verify bed material compatibility, use caution when removing prints''],
              potential_issues = [''Risk of burns'', ''Potential bed damage'', ''Warping'']\<rparr>]
          else [])"

definition safety_long_print :: "AnalysisResult \<Rightarrow> OptimizationSuggestion list" where
  "safety_long_print a =
     (let printTime = or_zero (geometry_time_estimate a)
      in if printTime > 24 * 3600 then
           [\<lparr>category = Safety, title = ''Long Print Duration Warning'',
             description = [Str ''Estimated print time is ''] @ formatTime printTime
               @ [Str ''. Consider monitoring and power backup.''],
             impact = Medium,
             time_saving = None,
             material_saving = None,
             implementation = Some [Str ''Set up monitoring, ensure stable power supply, check first layers carefully''],
             potential_issues = [''Risk of print failure'', ''Power outage vulnerability'',
               ''Increased wear on printer'']\<rparr>]
         else [])"

definition generateSafetyOptimizations :: "AnalysisResult \<Rightarrow> OptimizationSuggestion list" where
  "generateSafetyOptimizations a = safety_nozzle a @ safety_bed a @ safety_long_print a"

subsection \<open>rankSuggestions\<close>

text \<open>
  The comparator of the source. \<^verbatim>\<open>a.category.toLowerCase()\<close> is the category's name in
  lower case; the priority is the string the caller sent.
\<close>

fun category_lower :: "category \<Rightarrow> string" where
  "category_lower Speed = ''speed''"
| "category_lower Material = ''material''"
| "category_lower Quality = ''quality''"
| "category_lower Safety = ''safety''"

fun impactScore :: "impact \<Rightarrow> int" where
  "impactScore High = 3"
| "impactScore Medium = 2"
| "impactScore Low = 1"

definition priorityMatch :: "OptimizationProfile \<Rightarrow> OptimizationSuggestion \<Rightarrow> bool" where
  "priorityMatch p s = (category_lower (category s) = priority p)"

definition rank_compare ::
  "OptimizationProfile \<Rightarrow> OptimizationSuggestion \<Rightarrow> OptimizationSuggestion \<Rightarrow> int" where
  "rank_compare p a b =
     (let aPriorityMatch = priorityMatch p a; bPriorityMatch = priorityMatch p b
      in if aPriorityMatch \<and> \<not> bPriorityMatch then -1
         else if \<not> aPriorityMatch \<and> bPriorityMatch then 1
         else impactScore (impact b) - impactScore (impact a))"

text \<open>
  \<^verbatim>\<open>Array.prototype.sort\<close> with a comparator is a stable sort: an element stays before a
  later one unless the comparator puts the later one strictly first. It is modelled as
  insertion from the right, which keeps an element before the later elements it does not
  exceed.
\<close>

fun insert_by :: "('a \<Rightarrow> 'a \<Rightarrow> int) \<Rightarrow> 'a \<Rightarrow> 'a list \<Rightarrow> 'a list" where
  "insert_by cmp x [] = [x]"
| "insert_by cmp x (y # ys) =
     (if cmp x y \<le> 0 then x # y # ys else y # insert_by cmp x ys)"

definition array_sort :: "('a \<Rightarrow> 'a \<Rightarrow> int) \<Rightarrow> 'a list \<Rightarrow> 'a list" where
  "array_sort cmp xs = foldr (insert_by cmp) xs []"

definition rankSuggestions ::
  "OptimizationSuggestion list \<Rightarrow> OptimizationProfile \<Rightarrow> OptimizationSuggestion list" where
  "rankSuggestions suggestions p = array_sort (rank_compare p) suggestions"

subsection \<open>generateOptimizations\<close>

definition collectSuggestions ::
  "AnalysisResult \<Rightarrow> OptimizationProfile \<Rightarrow> OptimizationSuggestion list" where
  "collectSuggestions a p =
     (if priority p = ''speed'' \<or> \<not> truthy (constraint_field maxPrintTime p)
      then generateSpeedOptimizations a else [])
     @ (if priority p = ''quality'' \<or> truthy (constraint_field minQuality p)
        then generateQualityOptimizations a else [])
     @ (if priority p = ''material'' \<or> truthy (constraint_field maxMaterial p)
        then generateMaterialOptimizations a else [])
     @ generateSafetyOptimizations a"

definition generateOptimizations ::
  "AnalysisResult \<Rightarrow> OptimizationProfile \<Rightarrow> OptimizationSuggestion list" where
  "generateOptimizations a p = rankSuggestions (collectSuggestions a p) p"

subsection \<open>analyzeForIssues\<close>

datatype issue_type = Warning | IssueError | Info

record Issue =
  issue_type :: issue_type
  issue_category :: string
  message :: "fragment list"
  suggestion :: "string option"

record IssueReport =
  issues :: "Issue list"
  score :: real

text \<open>Each check appends at most one issue and lowers the running score.\<close>

definition check_bridging :: "AnalysisResult \<Rightarrow> IssueReport \<Rightarrow> IssueReport" where
  "check_bridging a r =
     (if has_bridging a then
        \<lparr>issues = issues r @
           [\<lparr>issue_type = Warning, issue_category = ''Bridging'',
             message = [Str ''Bridging detected - may result in poor surface quality''],
             suggestion = Some ''Consider adding supports or modifying part orientation''\<rparr>],
         score = score r - 10\<rparr>
      else r)"

definition check_supports :: "AnalysisResult \<Rightarrow> IssueReport \<Rightarrow> IssueReport" where
  "check_supports a r =
     (if has_support a then
        \<lparr>issues = issues r @
           [\<lparr>issue_type = Info, issue_category = ''Supports'',
             message = [Str ''Support material required''],
             suggestion = Some ''Optimize orientation to minimize support usage''\<rparr>],
         score = score r - 5\<rparr>
      else r)"

definition check_temperature :: "AnalysisResult \<Rightarrow> IssueReport \<Rightarrow> IssueReport" where
  "check_temperature a r =
     (case profile_field temperature_nozzle a of
        None \<Rightarrow> r
      | Some temp \<Rightarrow>
          if temp \<noteq> 0 \<and> temp > 280 then
            \<lparr>issues = issues r @
               [\<lparr>issue_type = IssueError, issue_category = ''Temperature'',
                 message = [Str ''Extremely high nozzle temperature: '', Num (Fin temp),
                   Degree, Str ''C''],
                 suggestion = Some ''Verify material requirements and printer capabilities''\<rparr>],
             score = score r - 20\<rparr>
          else r)"

definition check_thin_layers :: "AnalysisResult \<Rightarrow> IssueReport \<Rightarrow> IssueReport" where
  "check_thin_layers a r =
     (case profile_field layer_height a of
        None \<Rightarrow> r
      | Some h \<Rightarrow>
          if h \<noteq> 0 \<and> h < 0.1 then
            \<lparr>issues = issues r @
               [\<lparr>issue_type = Warning, issue_category = ''Layer Height'',
                 message = [Str ''Very thin layers: '', Num (Fin h), Str ''mm''],
                 suggestion =
                   Some ''Extremely long print times - consider increasing layer height''\<rparr>],
             score = score r - 15\<rparr>
          else r)"

definition analyzeForIssues :: "AnalysisResult \<Rightarrow> IssueReport" where
  "analyzeForIssues a =
     (let r = \<lparr>issues = [], score = 100\<rparr>;
          r = check_bridging a r;
          r = check_supports a r;
          r = check_temperature a r;
          r = check_thin_layers a r
      in \<lparr>issues = issues r, score = max 0 (score r)\<rparr>)"

section \<open>AnalysisService: the processing map\<close>












section \<open>parseGCodeCommand (shared/utils)\<close>

text \<open>
  Strings are lists of 8-bit characters; the code units of the source's strings beyond
  that range are not modelled. \<^verbatim>\<open>trim\<close> removes white space and line terminators from
  both ends; in this range these are the codes 9 to 13, 32 and 160.
\<close>

definition is_space :: "char \<Rightarrow> bool" where
  "is_space c = (of_char c \<in> {9, 10, 11, 12, 13, 32, 160 :: nat})"

definition is_line_terminator :: "char \<Rightarrow> bool" where
  "is_line_terminator c = (of_char c \<in> {10, 13 :: nat})"

definition is_digit :: "char \<Rightarrow> bool" where
  "is_digit c = (48 \<le> (of_char c :: nat) \<and> (of_char c :: nat) \<le> 57)"

definition is_upper :: "char \<Rightarrow> bool" where
  "is_upper c = (65 \<le> (of_char c :: nat) \<and> (of_char c :: nat) \<le> 90)"

definition js_trim :: "string \<Rightarrow> string" where
  "js_trim s = rev (dropWhile is_space (rev (dropWhile is_space s)))"

text \<open>\<^verbatim>\<open>s.indexOf(c)\<close> for a single character: the first position, or -1.\<close>

definition index_of :: "char \<Rightarrow> string \<Rightarrow> int" where
  "index_of c s = (if c \<in> set s then int (length (takeWhile (\<lambda>x. x \<noteq> c) s)) else -1)"

subsection \<open>parseFloat\<close>

text \<open>
  \<^verbatim>\<open>parseFloat\<close> reads the longest prefix that is a decimal literal and is \<^verbatim>\<open>NaN\<close> when
  there is none. It is applied to text made of digits, dots and minus signs only, so the
  literal is an optional minus sign, digits, and optionally a dot and digits, with a digit
  on at least one side of the dot. The value is the exact decimal.
\<close>

definition digit_val :: "char \<Rightarrow> nat" where
  "digit_val c = of_char c - 48"

definition digits_value :: "string \<Rightarrow> nat" where
  "digits_value ds = foldl (\<lambda>n c. 10 * n + digit_val c) 0 ds"

definition parseFloat :: "string \<Rightarrow> jsnum" where
  "parseFloat s =
     (let negative = (s \<noteq> [] \<and> hd s = CHR ''-'');
          s1 = (if negative then tl s else s);
          ip = takeWhile is_digit s1;
          r1 = dropWhile is_digit s1;
          fp = (case r1 of [] \<Rightarrow> [] | c # r2 \<Rightarrow> if c = CHR ''.'' then takeWhile is_digit r2 else [])
      in if ip = [] \<and> fp = [] then NaN
         else Fin ((if negative then -1 else 1)
                   * (real (digits_value ip) + real (digits_value fp) / 10 ^ length fp)))"

subsection \<open>The two regular expressions\<close>

text \<open>
  \<^verbatim>\<open>/^([GMTF])(\d+(?:\.\d+)?)(.*)/\<close>: one of the four letters, the longest run of digits
  (at least one), a dot with the longest run of digits after it if there is at least one,
  and the rest up to the first line terminator. Greedy matching never has to give anything
  back, since the rest may be anything. The result is the three groups.
\<close>

definition match_command :: "string \<Rightarrow> (char \<times> string \<times> string) option" where
  "match_command command =
     (case command of
        [] \<Rightarrow> None
      | t # rest \<Rightarrow>
          if t \<in> set ''GMTF'' then
            (let ds = takeWhile is_digit rest; r1 = dropWhile is_digit rest
             in if ds = [] then None
                else (case r1 of
                        [] \<Rightarrow> Some (t, ds, [])
                      | c # r2 \<Rightarrow>
                          if c = CHR ''.'' \<and> takeWhile is_digit r2 \<noteq> []
                          then Some (t, ds @ CHR ''.'' # takeWhile is_digit r2,
                                     takeWhile (\<lambda>x. \<not> is_line_terminator x)
                                       (dropWhile is_digit r2))
                          else Some (t, ds, takeWhile (\<lambda>x. \<not> is_line_terminator x) r1)))
          else None)"

text \<open>
  \<^verbatim>\<open>matchAll(/([A-Z])([-\d.]+)/g)\<close>: scanning from the left, an upper-case letter followed
  by the longest non-empty run of digits, dots and minus signs is a match and the scan
  goes on behind it; anything else is skipped one character at a time.
\<close>

definition is_num_char :: "char \<Rightarrow> bool" where
  "is_num_char c = (c = CHR ''-'' \<or> is_digit c \<or> c = CHR ''.'')"

function scan_params :: "string \<Rightarrow> (char \<times> string) list" where
  "scan_params [] = []"
| "scan_params (c # cs) =
     (if is_upper c \<and> takeWhile is_num_char cs \<noteq> []
      then (c, takeWhile is_num_char cs) # scan_params (dropWhile is_num_char cs)
      else scan_params cs)"
  by pat_completeness auto
termination
  by (relation "measure length") (auto simp: length_dropWhile_le less_Suc_eq_le)

subsection \<open>The parser\<close>

record GCodeCommand =
  cmd_type :: char
  cmd_code :: jsnum
  params :: "char \<rightharpoonup> jsnum"
  cmd_comment :: "string option"
  lineNumber :: nat

text \<open>The command text and the comment text that the source separates at the first semicolon.\<close>

definition split_comment :: "string \<Rightarrow> string \<times> string" where
  "split_comment trimmed =
     (let commentIndex = index_of CHR '';'' trimmed
      in if commentIndex > 0
         then (js_trim (take (nat commentIndex) trimmed),
               js_trim (drop (nat commentIndex + 1) trimmed))
         else (trimmed, []))"

definition collect_params :: "(char \<times> string) list \<Rightarrow> (char \<rightharpoonup> jsnum)" where
  "collect_params ms = foldl (\<lambda>m (k, v). m(k \<mapsto> parseFloat v)) Map.empty ms"

definition parseGCodeCommand :: "string \<Rightarrow> nat \<Rightarrow> GCodeCommand option" where
  "parseGCodeCommand line n =
     (let trimmed = js_trim line
      in if trimmed = [] \<or> hd trimmed = CHR '';'' then None
         else (let (command, comment) = split_comment trimmed
               in case match_command command of
                    None \<Rightarrow> None
                  | Some (t, number, paramsStr) \<Rightarrow>
                      Some \<lparr>cmd_type = t,
                            cmd_code = parseFloat number,
                            params = collect_params (scan_params paramsStr),
                            cmd_comment = (if comment = [] then None else Some comment),
                            lineNumber = n\<rparr>))"

subsection \<open>The command grammar of the specification\<close>

text \<open>
  The grammar as the specification words it, as a strict parser to compare with the
  source: the line is stripped, the comment is separated at the first semicolon, and the
  command text must be one of the letters G, M, T, F with a number (digits, optionally a
  dot and digits) followed by nothing but parameter pairs, each an upper-case letter with
  a signed number (an optional minus sign and a number), set apart by blanks. The result
  is the letter, the number, the pairs in order, and the text after the first semicolon.
\<close>

definition is_blank :: "char \<Rightarrow> bool" where
  "is_blank c = (c = CHR '' '' \<or> c = CHR 0x09)"

definition spec_decimal :: "string \<Rightarrow> real option" where
  "spec_decimal s =
     (let ip = takeWhile is_digit s; r = dropWhile is_digit s
      in if ip = [] then None
         else (case r of
                 [] \<Rightarrow> Some (real (digits_value ip))
               | c # fp \<Rightarrow>
                   if c = CHR ''.'' \<and> fp \<noteq> [] \<and> list_all is_digit fp
                   then Some (real (digits_value ip) + real (digits_value fp) / 10 ^ length fp)
                   else None))"

definition spec_signed :: "string \<Rightarrow> real option" where
  "spec_signed s =
     (case s of
        [] \<Rightarrow> None
      | c # r \<Rightarrow> if c = CHR ''-'' then map_option uminus (spec_decimal r) else spec_decimal s)"

function spec_params :: "string \<Rightarrow> (char \<times> real) list option" where
  "spec_params [] = Some []"
| "spec_params (c # cs) =
     (if is_blank c then spec_params cs
      else if is_upper c then
        (case spec_signed (takeWhile is_num_char cs) of
           None \<Rightarrow> None
         | Some v \<Rightarrow> map_option ((#) (c, v)) (spec_params (dropWhile is_num_char cs)))
      else None)"
  by pat_completeness auto
termination
  by (relation "measure length") (auto simp: length_dropWhile_le less_Suc_eq_le)

definition spec_parse :: "string \<Rightarrow> (char \<times> real \<times> (char \<times> real) list \<times> string) option" where
  "spec_parse line =
     (let trimmed = js_trim line
      in if trimmed = [] \<or> hd trimmed = CHR '';'' then None
         else (let command = js_trim (takeWhile (\<lambda>c. c \<noteq> CHR '';'') trimmed);
                   after = drop 1 (dropWhile (\<lambda>c. c \<noteq> CHR '';'') trimmed)
               in case command of
                    [] \<Rightarrow> None
                  | t # r \<Rightarrow>
                      if t \<in> set ''GMTF'' then
                        (case spec_decimal (takeWhile (\<lambda>c. is_digit c \<or> c = CHR ''.'') r) of
                           None \<Rightarrow> None
                         | Some v \<Rightarrow>
                             (case spec_params (dropWhile (\<lambda>c. is_digit c \<or> c = CHR ''.'') r) of
                                None \<Rightarrow> None
                              | Some pairs \<Rightarrow> Some (t, v, pairs, after)))
                      else None))"

section \<open>Sample analyses\<close>

definition sample_profile :: "real option \<Rightarrow> real option \<Rightarrow> SlicerProfile" where
  "sample_profile lh infill =
     \<lparr>layer_height = lh, extrusion_width = None, print_speed = None,
      temperature_nozzle = None, temperature_bed = None,
      infill_density = infill, wall_count = None\<rparr>"

definition sample_analysis ::
  "string \<Rightarrow> SlicerProfile option \<Rightarrow> real option \<Rightarrow> status \<Rightarrow> AnalysisResult" where
  "sample_analysis name p t st =
     \<lparr>filepath = name, profile = p,
      geometry = Some \<lparr>extrusion_stats = None, time_estimate = t, pattern_detection = None\<rparr>,
      layers = None, status = st\<rparr>"



definition hot_profile :: SlicerProfile where
  "hot_profile =
     \<lparr>layer_height = Some 0.1, extrusion_width = None, print_speed = None,
      temperature_nozzle = Some 290, temperature_bed = None,
      infill_density = Some 30, wall_count = None\<rparr>"

definition hot_analysis :: AnalysisResult where
  "hot_analysis = sample_analysis ''hot.gcode'' (Some hot_profile) (Some 600) Complete"

definition material_first :: OptimizationProfile where
  "material_first = \<lparr>priority = ''material'', constraints = None\<rparr>"

section \<open>Proof devices\<close>

text \<open>
  The comparator of \<^verbatim>\<open>rankSuggestions\<close> orders suggestions as this key does: matching the
  priority first, then the higher impact.
\<close>

definition rank_key :: "OptimizationProfile \<Rightarrow> OptimizationSuggestion \<Rightarrow> nat" where
  "rank_key p s = (if priorityMatch p s then 0 else 3) + nat (3 - impactScore (impact s))"

text \<open>The category and title of every rule, in the order the generators run them.\<close>

definition rule_name :: "OptimizationSuggestion \<Rightarrow> category \<times> string" where
  "rule_name s = (category s, title s)"

definition speed_rules :: "(category \<times> string) list" where
  "speed_rules =
     [(Speed, ''Increase Layer Height''), (Speed, ''Reduce Infill Density''),
      (Speed, ''Increase Print Speed''), (Speed, ''Optimize Support Settings'')]"

definition quality_rules :: "(category \<times> string) list" where
  "quality_rules =
     [(Quality, ''Reduce Layer Height''), (Quality, ''Reduce Print Speed''),
      (Quality, ''Increase Wall Count''), (Quality, ''Optimize Temperature'')]"

definition material_rules :: "(category \<times> string) list" where
  "material_rules =
     [(Material, ''Reduce Infill Density''), (Material, ''Optimize Wall Thickness''),
      (Material, ''Minimize Support Material''), (Material, ''Consider Hollow Design'')]"

definition safety_rules :: "(category \<times> string) list" where
  "safety_rules =
     [(Safety, ''High Temperature Warning''), (Safety, ''High Bed Temperature Warning''),
      (Safety, ''Long Print Duration Warning'')]"

section \<open>Properties of the quality score\<close>

lemmas quality_defs =
  calculateQualityScore_def penalize_thick_layers_def penalize_low_infill_def
  penalize_support_def penalize_bridging_def bonus_optimal_layers_def

text \<open>Each statement of the score computation, and the computation as one expression.\<close>

lemma penalize_thick_layers_eq:
  "penalize_thick_layers a s =
     s - (if (\<exists>h. profile_field layer_height a = Some h \<and> h > 0.3) then 10 else 0)"
  by (cases "profile_field layer_height a") (simp_all add: penalize_thick_layers_def guarded_def)

lemma penalize_low_infill_eq:
  "penalize_low_infill a s =
     s - (if (\<exists>d. profile_field infill_density a = Some d \<and> d \<noteq> 0 \<and> d < 10) then 15 else 0)"
  by (cases "profile_field infill_density a") (simp_all add: penalize_low_infill_def guarded_def)

lemma penalize_support_eq: "penalize_support a s = s - (if has_support a then 5 else 0)"
  by (simp add: penalize_support_def)

lemma penalize_bridging_eq: "penalize_bridging a s = s - (if has_bridging a then 10 else 0)"
  by (simp add: penalize_bridging_def)

lemma bonus_optimal_layers_eq:
  "bonus_optimal_layers a s =
     s + (if (\<exists>h. profile_field layer_height a = Some h \<and> 0.15 \<le> h \<and> h \<le> 0.25)
          then 5 else 0)"
  by (cases "profile_field layer_height a") (auto simp: bonus_optimal_layers_def guarded_def)

lemmas quality_step_eqs =
  penalize_thick_layers_eq penalize_low_infill_eq penalize_support_eq penalize_bridging_eq
  bonus_optimal_layers_eq

lemma quality_score_closed_form:
  "calculateQualityScore a =
     max 0 (min 100
       (100
        - (if (\<exists>h. profile_field layer_height a = Some h \<and> h > 0.3) then 10 else 0)
        - (if (\<exists>d. profile_field infill_density a = Some d \<and> d \<noteq> 0 \<and> d < 10) then 15 else 0)
        - (if has_support a then 5 else 0)
        - (if has_bridging a then 10 else 0)
        + (if (\<exists>h. profile_field layer_height a = Some h \<and> 0.15 \<le> h \<and> h \<le> 0.25)
           then 5 else 0)))"
  unfolding calculateQualityScore_def Let_def quality_step_eqs by (rule refl)

lemma if_bounds: "0 \<le> (if b then c else (0::real)) \<and> (if b then c else 0) \<le> c" if "0 \<le> c"
  using that by simp

lemma clamp_lower:
  fixes A B C D E :: real
  assumes "A \<le> 10" "B \<le> 15" "C \<le> 5" "D \<le> 10" "0 \<le> E"
  shows "60 \<le> max 0 (min 100 (100 - A - B - C - D + E))"
  using assms by (simp add: max_def min_def)

lemma quality_score_bounds: "60 \<le> calculateQualityScore a \<and> calculateQualityScore a \<le> 100"
proof
  show "60 \<le> calculateQualityScore a"
    unfolding quality_score_closed_form
    by (rule clamp_lower) (simp_all split del: if_split add: if_bounds)
  show "calculateQualityScore a \<le> 100"
    unfolding calculateQualityScore_def Let_def by simp
qed

lemma sample_fields:
  "profile_field f (sample_analysis n None t s) = None"
  "profile_field layer_height (sample_analysis n (Some (sample_profile lh dens)) t s) = lh"
  "profile_field infill_density (sample_analysis n (Some (sample_profile lh dens)) t s) = dens"
  "has_support (sample_analysis n p t s) = False"
  "has_bridging (sample_analysis n p t s) = False"
  "geometry_time_estimate (sample_analysis n p t s) = t"
  "status (sample_analysis n p t s) = s"
  by (simp_all add: profile_field_def sample_analysis_def sample_profile_def
        has_support_def has_bridging_def geometry_time_estimate_def)

lemma sample_scores:
  "calculateQualityScore (sample_analysis n None t s) = 100"
  "calculateQualityScore (sample_analysis n (Some (sample_profile None (Some 5))) t s) = 85"
  "calculateQualityScore (sample_analysis n (Some (sample_profile None (Some 0))) t s) = 100"
  unfolding quality_score_closed_form sample_fields by simp_all

text \<open>
  C10. An analysis whose profile is absent, or whose profile has layer height 0 and infill
  density 0 (or lacks them), and whose geometry reports neither support nor bridging,
  scores exactly 100: missing and zero-valued settings incur no penalty. No analysis
  scores higher, so such a file ranks with the best in a quality comparison.
\<close>

theorem quality_score_unknown_profile_is_100:
  assumes "profile a = None \<or>
           (\<exists>p. profile a = Some p \<and> layer_height p \<in> {None, Some 0}
                 \<and> infill_density p \<in> {None, Some 0})"
      and "\<not> has_support a" and "\<not> has_bridging a"
  shows "calculateQualityScore a = 100
         \<and> (\<forall>b. calculateQualityScore b \<le> calculateQualityScore a)"
proof -
  from assms(1) have lh: "profile_field layer_height a \<in> {None, Some 0}"
    and dens: "profile_field infill_density a \<in> {None, Some 0}"
    by (auto simp: profile_field_def)
  have e: "\<not> (\<exists>h. profile_field layer_height a = Some h \<and> h > 0.3)"
    "\<not> (\<exists>d. profile_field infill_density a = Some d \<and> d \<noteq> 0 \<and> d < 10)"
    "\<not> (\<exists>h. profile_field layer_height a = Some h \<and> 0.15 \<le> h \<and> h \<le> 0.25)"
    using lh dens by auto
  have "calculateQualityScore a = 100"
    unfolding quality_score_closed_form using e assms(2,3) by simp
  then show ?thesis using quality_score_bounds by simp
qed

theorem quality_score_unknown_profile_is_100_witness:
  "calculateQualityScore
     \<lparr>filepath = ''a.gcode'',
      profile = Some \<lparr>layer_height = Some 0, extrusion_width = None, print_speed = None,
                      temperature_nozzle = None, temperature_bed = None,
                      infill_density = Some 0, wall_count = None\<rparr>,
      geometry = None, layers = None, status = Complete\<rparr> = 100
   \<and> calculateQualityScore
     \<lparr>filepath = ''b.gcode'', profile = None,
      geometry = Some \<lparr>extrusion_stats = None, time_estimate = Some 600,
                       pattern_detection =
                         Some \<lparr>support_detected = False, bridging_detected = False\<rparr>\<rparr>,
      layers = None, status = Complete\<rparr> = 100"
  by (intro conjI quality_score_unknown_profile_is_100[THEN conjunct1])
     (simp_all add: has_support_def has_bridging_def)

section \<open>Properties of the comparison metrics\<close>

subsection \<open>Minimum, maximum and first index\<close>

lemma math_min_Min: "vs \<noteq> [] \<Longrightarrow> math_min vs = Fin (Min (set vs))"
proof (induction vs rule: list_nonempty_induct)
  case (single x) show ?case by simp
next
  case (cons x xs) then show ?case by (simp add: Min_insert)
qed

lemma math_max_Max: "vs \<noteq> [] \<Longrightarrow> math_max vs = Fin (Max (set vs))"
proof (induction vs rule: list_nonempty_induct)
  case (single x) show ?case by simp
next
  case (cons x xs) then show ?case by simp
qed

lemma index_from_found:
  "v \<in> set xs \<Longrightarrow>
   \<exists>k < length xs. index_from xs v i = i + int k \<and> xs ! k = v \<and> (\<forall>j<k. xs ! j \<noteq> v)"
proof (induction xs arbitrary: i)
  case Nil then show ?case by simp
next
  case (Cons x xs)
  show ?case
  proof (cases "x = v")
    case True
    then show ?thesis by (intro exI[of _ 0]) simp
  next
    case False
    with Cons.prems have "v \<in> set xs" by simp
    from Cons.IH[OF this, of "i + 1"] obtain k where
      k: "k < length xs" "index_from xs v (i + 1) = i + 1 + int k" "xs ! k = v" "\<forall>j<k. xs ! j \<noteq> v"
      by blast
    have "\<forall>j<Suc k. (x # xs) ! j \<noteq> v"
      using False k(4) by (auto simp: nth_Cons split: nat.splits)
    with False k show ?thesis by (intro exI[of _ "Suc k"]) simp
  qed
qed

text \<open>
  Where the smallest value is not zero, the block for print time and material usage
  reports the first index of the minimum and the stated difference.
\<close>

lemma lower_wins_nonzero_min:
  assumes "2 \<le> length vs" and "Min (set vs) \<noteq> 0"
  shows "difference (lower_wins vs) = spec_difference vs"
proof -
  from assms(1) have ne: "vs \<noteq> []" by auto
  show ?thesis using assms
    by (simp add: lower_wins_def spec_difference_def math_min_Min[OF ne] math_max_Max[OF ne])
qed

lemma lower_wins_winner:
  assumes "vs \<noteq> []"
  shows "\<exists>k < length vs. winner (lower_wins vs) = int k \<and> vs ! k = Min (set vs)
           \<and> (\<forall>j<k. vs ! j \<noteq> Min (set vs))"
proof -
  have "Min (set vs) \<in> set vs" using assms by (intro Min_in) auto
  from index_from_found[OF this, of 0] show ?thesis
    by (simp add: lower_wins_def math_min_Min[OF assms])
qed

text \<open>
  C1. The difference reported for print time and material usage is stated to be 0 when the
  minimum is 0. The source divides by the minimum without a test: with the estimates 0 and
  600 the difference is \<^verbatim>\<open>Infinity\<close>, and with a missing estimate and 0 it is \<^verbatim>\<open>NaN\<close>,
  where the stated convention gives 0. The winner is the first index of the minimum in
  both runs.
\<close>

theorem print_time_zero_minimum:
  "print_time (generateComparison
      [sample_analysis ''a.gcode'' None (Some 0) Complete,
       sample_analysis ''b.gcode'' None (Some 600) Complete] [''printTime''])
     = Some \<lparr>metric_values = [0, 600], winner = 0, difference = PosInf\<rparr>
   \<and> print_time (generateComparison
      [sample_analysis ''a.gcode'' None None Complete,
       sample_analysis ''b.gcode'' None (Some 0) Complete] [''printTime''])
     = Some \<lparr>metric_values = [0, 0], winner = 0, difference = NaN\<rparr>
   \<and> spec_difference [0, 600] = Fin 0 \<and> spec_difference [0, 0] = Fin 0"
  by (simp add: generateComparison_def lower_wins_def sample_analysis_def or_zero_def
        geometry_time_estimate_def spec_difference_def)

text \<open>
  C2. The quality metric is stated to follow the convention of print time: (max - min) /
  min * 100. For the scores 100 and 85 the source reports 15, the convention gives 300/17.
\<close>

theorem quality_difference_counterexample:
  "quality_score (generateComparison
      [sample_analysis ''a.gcode'' None (Some 600) Complete,
       sample_analysis ''b.gcode'' (Some (sample_profile None (Some 5))) (Some 900) Complete]
      [''quality''])
     = Some \<lparr>metric_values = [100, 85], winner = 0, difference = Fin 15\<rparr>
   \<and> spec_difference [100, 85] \<noteq> Fin 15"
  by (simp add: generateComparison_def higher_wins_def sample_scores spec_difference_def)

text \<open>
  C2, as the source has it: for a comparison of at least two analyses that requests the
  quality metric, the values are the quality scores in input order, the winner is the
  first index of the maximum score, and the difference is (max - min) / max * 100; the
  maximum score, the denominator, is never 0.
\<close>

theorem quality_metric_winner_and_difference:
  assumes "2 \<le> length analyses" and "''quality'' \<in> set metrics"
  shows "\<exists>m k. quality_score (generateComparison analyses metrics) = Some m
      \<and> metric_values m = map calculateQualityScore analyses
      \<and> winner m = int k \<and> k < length analyses
      \<and> metric_values m ! k = Max (set (metric_values m))
      \<and> (\<forall>j<k. metric_values m ! j < Max (set (metric_values m)))
      \<and> Max (set (metric_values m)) \<noteq> 0
      \<and> difference m =
          Fin ((Max (set (metric_values m)) - Min (set (metric_values m)))
                 / Max (set (metric_values m)) * 100)"
proof -
  define vs where "vs = map calculateQualityScore analyses"
  from assms(1) have ne: "vs \<noteq> []" and len: "1 < length vs" by (auto simp: vs_def)
  have fin: "finite (set vs)" "set vs \<noteq> {}" using ne by auto
  have mx_in: "Max (set vs) \<in> set vs" using fin by (rule Max_in)
  then obtain a where "Max (set vs) = calculateQualityScore a" by (auto simp: vs_def)
  with quality_score_bounds[of a] have pos: "Max (set vs) \<noteq> 0" by simp
  from index_from_found[OF mx_in, of 0] obtain k where
    k: "k < length vs" "index_from vs (Max (set vs)) 0 = int k" "vs ! k = Max (set vs)"
       "\<forall>j<k. vs ! j \<noteq> Max (set vs)" by auto
  have lt: "\<forall>j<k. vs ! j < Max (set vs)"
  proof (intro allI impI)
    fix j assume j: "j < k"
    then have "vs ! j \<in> set vs" using k(1) by simp
    then have "vs ! j \<le> Max (set vs)" using fin by simp
    with k(4) j show "vs ! j < Max (set vs)" by fastforce
  qed
  have q: "quality_score (generateComparison analyses metrics) = Some (higher_wins vs)"
    using assms(2) by (simp add: generateComparison_def vs_def)
  have d: "difference (higher_wins vs) = Fin ((Max (set vs) - Min (set vs)) / Max (set vs) * 100)"
    using len pos by (simp add: higher_wins_def math_min_Min[OF ne] math_max_Max[OF ne])
  have w: "winner (higher_wins vs) = int k"
    using k(2) by (simp add: higher_wins_def math_max_Max[OF ne])
  have v: "metric_values (higher_wins vs) = vs" by (simp add: higher_wins_def)
  show ?thesis
    apply (rule exI[of _ "higher_wins vs"], rule exI[of _ k])
    using q d w v k lt pos by (simp add: vs_def)
qed

theorem quality_metric_winner_and_difference_witness:
  "\<exists>m k. quality_score (generateComparison
      [sample_analysis ''a.gcode'' None (Some 600) Complete,
       sample_analysis ''b.gcode'' (Some (sample_profile None (Some 5))) (Some 900) Complete]
      [''quality'']) = Some m
      \<and> metric_values m = [100, 85]
      \<and> winner m = int k \<and> k < 2
      \<and> difference m = Fin 15"
proof -
  let ?as = "[sample_analysis ''a.gcode'' None (Some 600) Complete,
       sample_analysis ''b.gcode'' (Some (sample_profile None (Some 5))) (Some 900) Complete]"
  have h1: "2 \<le> length ?as" by simp
  have h2: "''quality'' \<in> set [''quality'']" by simp
  from quality_metric_winner_and_difference[OF h1 h2] obtain m k where
    mk: "quality_score (generateComparison ?as [''quality'']) = Some m"
      "metric_values m = map calculateQualityScore ?as"
      "winner m = int k" "k < length ?as"
      "difference m = Fin ((Max (set (metric_values m)) - Min (set (metric_values m)))
                 / Max (set (metric_values m)) * 100)" by blast
  have "metric_values m = [100, 85]" using mk(2) by (simp add: sample_scores)
  with mk show ?thesis by simp
qed

subsection \<open>Rejected requests\<close>







subsection \<open>The quality score\<close>

text \<open>
  C4. The penalty for low infill is stated for every infill density below 10. A profile
  with infill density 0 keeps the score 100 in the source; the stated formula gives 85.
\<close>

theorem quality_score_zero_infill_counterexample:
  "calculateQualityScore
      (sample_analysis ''a.gcode'' (Some (sample_profile None (Some 0))) (Some 600) Complete) = 100
   \<and> spec_quality_score
      (sample_analysis ''a.gcode'' (Some (sample_profile None (Some 0))) (Some 600) Complete) = 85"
  by (simp add: quality_defs guarded_def spec_quality_score_def sample_analysis_def
        sample_profile_def profile_field_def has_support_def has_bridging_def)

text \<open>
  C4, as the source has it: the quality score is 100, minus 10 if the layer height is
  above 0.3, minus 15 if the infill density is present, not zero and below 10, minus 5 if
  support is detected, minus 10 if bridging is detected, plus 5 if the layer height lies
  in [0.15, 0.25], clamped to [0, 100]. It lies in [0, 100]. In a comparison the score at
  each index is the score of the analysis at that index alone, so reordering the analyses
  reorders the scores and changes none.
\<close>

theorem quality_score_formula:
  "calculateQualityScore a =
     max 0 (min 100
       (100
        - (if (\<exists>h. profile_field layer_height a = Some h \<and> h > 0.3) then 10 else 0)
        - (if (\<exists>d. profile_field infill_density a = Some d \<and> d \<noteq> 0 \<and> d < 10) then 15 else 0)
        - (if has_support a then 5 else 0)
        - (if has_bridging a then 10 else 0)
        + (if (\<exists>h. profile_field layer_height a = Some h \<and> 0.15 \<le> h \<and> h \<le> 0.25)
           then 5 else 0)))
   \<and> 0 \<le> calculateQualityScore a \<and> calculateQualityScore a \<le> 100
   \<and> (''quality'' \<in> set metrics \<longrightarrow>
        (\<exists>m. quality_score (generateComparison analyses metrics) = Some m
           \<and> length (metric_values m) = length analyses
           \<and> (\<forall>i < length analyses. metric_values m ! i = calculateQualityScore (analyses ! i))))
   \<and> (mset analyses = mset others \<longrightarrow>
        mset (map calculateQualityScore analyses) = mset (map calculateQualityScore others))"
proof (intro conjI impI)
  show "calculateQualityScore a =
     max 0 (min 100
       (100
        - (if (\<exists>h. profile_field layer_height a = Some h \<and> h > 0.3) then 10 else 0)
        - (if (\<exists>d. profile_field infill_density a = Some d \<and> d \<noteq> 0 \<and> d < 10) then 15 else 0)
        - (if has_support a then 5 else 0)
        - (if has_bridging a then 10 else 0)
        + (if (\<exists>h. profile_field layer_height a = Some h \<and> 0.15 \<le> h \<and> h \<le> 0.25)
           then 5 else 0)))"
    by (rule quality_score_closed_form)
  show "0 \<le> calculateQualityScore a" using quality_score_bounds[of a] by simp
  show "calculateQualityScore a \<le> 100" using quality_score_bounds[of a] by simp
next
  assume "''quality'' \<in> set metrics"
  then show "\<exists>m. quality_score (generateComparison analyses metrics) = Some m
           \<and> length (metric_values m) = length analyses
           \<and> (\<forall>i < length analyses. metric_values m ! i = calculateQualityScore (analyses ! i))"
    by (simp add: generateComparison_def higher_wins_def)
next
  assume "mset analyses = mset others"
  then show "mset (map calculateQualityScore analyses) = mset (map calculateQualityScore others)"
    by (metis mset_map)
qed

theorem quality_score_formula_witness:
  "calculateQualityScore
      (sample_analysis ''b.gcode'' (Some (sample_profile (Some 0.2) (Some 5))) (Some 900) Complete)
     = 90
   \<and> (\<exists>m. quality_score (generateComparison
         [sample_analysis ''a.gcode'' None (Some 600) Complete,
          sample_analysis ''b.gcode'' (Some (sample_profile (Some 0.2) (Some 5))) (Some 900) Complete]
         [''quality'']) = Some m \<and> length (metric_values m) = 2)"
proof -
  let ?b = "sample_analysis ''b.gcode'' (Some (sample_profile (Some 0.2) (Some 5))) (Some 900) Complete"
  let ?as = "[sample_analysis ''a.gcode'' None (Some 600) Complete, ?b]"
  note f = quality_score_formula[of ?b "[''quality'']" ?as ?as]
  have lh: "profile_field layer_height ?b = Some 0.2"
    and inf: "profile_field infill_density ?b = Some 5"
    and ns: "\<not> has_support ?b" and nb: "\<not> has_bridging ?b"
    by (simp_all add: profile_field_def sample_analysis_def sample_profile_def
          has_support_def has_bridging_def)
  have e1: "(\<exists>h. profile_field layer_height ?b = Some h \<and> h > 0.3) = False"
    and e2: "(\<exists>d. profile_field infill_density ?b = Some d \<and> d \<noteq> 0 \<and> d < 10) = True"
    unfolding lh inf by simp_all
  have e3: "\<exists>h. profile_field layer_height ?b = Some h \<and> 0.15 \<le> h \<and> h \<le> 0.25"
    unfolding lh by (rule exI[of _ "0.2"]) simp
  from f have "calculateQualityScore ?b = 90"
    unfolding e1 e2 using e3 ns nb by simp
  moreover from f have "\<exists>m. quality_score (generateComparison ?as [''quality'']) = Some m
      \<and> length (metric_values m) = 2" by auto
  ultimately show ?thesis by blast
qed

section \<open>Properties of the optimization suggestions\<close>

text \<open>
  The comparator agrees with the key, so the sort of the source is the stable sort by that key.
\<close>

lemma rank_compare_key: "rank_compare p a b \<le> 0 \<longleftrightarrow> rank_key p a \<le> rank_key p b"
  by (cases "impact a"; cases "impact b") (simp_all add: rank_compare_def rank_key_def Let_def)

lemma insert_by_insort_key:
  assumes "\<And>x y. cmp x y \<le> 0 \<longleftrightarrow> key x \<le> key y"
  shows "insert_by cmp x ys = insort_key key x ys"
  by (induction ys) (simp_all add: assms)

lemma array_sort_sort_key:
  assumes "\<And>x y. cmp x y \<le> 0 \<longleftrightarrow> key x \<le> key y"
  shows "array_sort cmp xs = sort_key key xs"
  unfolding array_sort_def sort_key_def
  by (induction xs) (simp_all add: insert_by_insort_key[of cmp key, OF assms])

lemma rankSuggestions_sort_key: "rankSuggestions xs p = sort_key (rank_key p) xs"
  unfolding rankSuggestions_def by (rule array_sort_sort_key) (rule rank_compare_key)

lemma rank_key_le_iff:
  "rank_key p a \<le> rank_key p b \<longleftrightarrow>
     (priorityMatch p a \<and> \<not> priorityMatch p b)
     \<or> (priorityMatch p a = priorityMatch p b \<and> impactScore (impact b) \<le> impactScore (impact a))"
  by (cases "impact a"; cases "impact b") (auto simp: rank_key_def)

lemma rank_key_eq_iff:
  "rank_key p a = k \<longleftrightarrow>
     (\<exists>m w. k = (if m then 0 else 3) + nat (3 - impactScore w) \<and> priorityMatch p a = m \<and> impact a = w)"
  by (auto simp: rank_key_def)

lemma rank_key_class:
  "(priorityMatch p s = m \<and> impact s = w)
     \<longleftrightarrow> rank_key p s = (if m then 0 else 3) + nat (3 - impactScore w)"
  by (cases "impact s"; cases w) (auto simp: rank_key_def)

text \<open>
  C6. The list returned by generateOptimizations is the stable sort of the collected
  suggestions: every suggestion whose category equals the requested priority stands before
  every suggestion whose category does not; within each of the two groups the impact
  weights (High 3, Medium 2, Low 1) never increase; the result is a rearrangement of the
  collected suggestions; and suggestions that agree in priority match and impact keep the
  order in which the rules produced them.
\<close>

theorem ranking_is_stable_sort:
  "(\<forall>i j. i < length (generateOptimizations a p) \<and> j < length (generateOptimizations a p)
        \<and> priorityMatch p (generateOptimizations a p ! i)
        \<and> \<not> priorityMatch p (generateOptimizations a p ! j) \<longrightarrow> i < j)
   \<and> (\<forall>i j. i < j \<and> j < length (generateOptimizations a p)
        \<and> priorityMatch p (generateOptimizations a p ! i)
            = priorityMatch p (generateOptimizations a p ! j)
        \<longrightarrow> impactScore (impact (generateOptimizations a p ! j))
              \<le> impactScore (impact (generateOptimizations a p ! i)))
   \<and> mset (generateOptimizations a p) = mset (collectSuggestions a p)
   \<and> (\<forall>m w. filter (\<lambda>s. priorityMatch p s = m \<and> impact s = w) (generateOptimizations a p)
            = filter (\<lambda>s. priorityMatch p s = m \<and> impact s = w) (collectSuggestions a p))"
proof -
  define r where "r = generateOptimizations a p"
  have r: "r = sort_key (rank_key p) (collectSuggestions a p)"
    by (simp add: r_def generateOptimizations_def rankSuggestions_sort_key)
  have srt: "sorted (map (rank_key p) r)" unfolding r by simp
  have le: "rank_key p (r ! i) \<le> rank_key p (r ! j)" if "i < j" "j < length r" for i j
    using sorted_nth_mono[OF srt, of i j] that by simp
  have 1: "\<forall>i j. i < length r \<and> j < length r \<and> priorityMatch p (r ! i)
        \<and> \<not> priorityMatch p (r ! j) \<longrightarrow> i < j"
  proof (intro allI impI, elim conjE)
    fix i j assume h: "i < length r" "j < length r" "priorityMatch p (r ! i)"
      "\<not> priorityMatch p (r ! j)"
    show "i < j"
    proof (rule ccontr)
      assume "\<not> i < j"
      with h have "j < i" by (cases "i = j") auto
      from le[OF this h(1)] h(3,4) show False by (simp add: rank_key_le_iff)
    qed
  qed
  have 2: "\<forall>i j. i < j \<and> j < length r \<and> priorityMatch p (r ! i) = priorityMatch p (r ! j)
        \<longrightarrow> impactScore (impact (r ! j)) \<le> impactScore (impact (r ! i))"
    using le by (auto simp: rank_key_le_iff)
  have 3: "mset r = mset (collectSuggestions a p)" unfolding r by simp
  have 4: "\<forall>m w. filter (\<lambda>s. priorityMatch p s = m \<and> impact s = w) r
            = filter (\<lambda>s. priorityMatch p s = m \<and> impact s = w) (collectSuggestions a p)"
    unfolding r rank_key_class by (intro allI sort_key_stable)
  from 1 2 3 4 show ?thesis unfolding r_def by blast
qed

text \<open>
  Every rule pushes at most one suggestion, with a category and title of its own.
\<close>

lemma subseq_distinct: "subseq xs ys \<Longrightarrow> distinct ys \<Longrightarrow> distinct xs"
proof (induction rule: list_emb.induct)
  case (list_emb_Cons xs ys y)
  then show ?case by simp
next
  case (list_emb_Cons2 x y xs ys)
  then show ?case using list_emb_set[of "(=)" xs ys] by auto
qed simp

lemma speed_rule_names:
  "subseq (map rule_name (speed_layer_height a)) [(Speed, ''Increase Layer Height'')]"
  "subseq (map rule_name (speed_infill a)) [(Speed, ''Reduce Infill Density'')]"
  "subseq (map rule_name (speed_print_speed a)) [(Speed, ''Increase Print Speed'')]"
  "subseq (map rule_name (speed_support a)) [(Speed, ''Optimize Support Settings'')]"
  by (simp_all add: rule_name_def speed_layer_height_def speed_infill_def speed_print_speed_def
        speed_support_def split: option.splits)

lemma quality_rule_names:
  "subseq (map rule_name (quality_layer_height a)) [(Quality, ''Reduce Layer Height'')]"
  "subseq (map rule_name (quality_print_speed a)) [(Quality, ''Reduce Print Speed'')]"
  "subseq (map rule_name (quality_wall_count a)) [(Quality, ''Increase Wall Count'')]"
  "subseq (map rule_name (quality_temperature a)) [(Quality, ''Optimize Temperature'')]"
  by (simp_all add: rule_name_def quality_layer_height_def quality_print_speed_def
        quality_wall_count_def quality_temperature_def split: option.splits)

lemma material_rule_names:
  "subseq (map rule_name (material_infill a)) [(Material, ''Reduce Infill Density'')]"
  "subseq (map rule_name (material_wall_thickness a)) [(Material, ''Optimize Wall Thickness'')]"
  "subseq (map rule_name (material_support a)) [(Material, ''Minimize Support Material'')]"
  "subseq (map rule_name (material_hollow a)) [(Material, ''Consider Hollow Design'')]"
  by (simp_all add: rule_name_def material_infill_def material_wall_thickness_def
        material_support_def material_hollow_def Let_def split: option.splits)

lemma safety_rule_names:
  "subseq (map rule_name (safety_nozzle a)) [(Safety, ''High Temperature Warning'')]"
  "subseq (map rule_name (safety_bed a)) [(Safety, ''High Bed Temperature Warning'')]"
  "subseq (map rule_name (safety_long_print a)) [(Safety, ''Long Print Duration Warning'')]"
  by (simp_all add: rule_name_def safety_nozzle_def safety_bed_def safety_long_print_def
        Let_def split: option.splits)

lemma subseq_app: "subseq xs [k] \<Longrightarrow> subseq ys ks \<Longrightarrow> subseq (xs @ ys) (k # ks)"
  using list_emb_append_mono[of "(=)" xs "[k]" ys ks] by simp

lemma generator_rule_names:
  "subseq (map rule_name (generateSpeedOptimizations a)) speed_rules"
  "subseq (map rule_name (generateQualityOptimizations a)) quality_rules"
  "subseq (map rule_name (generateMaterialOptimizations a)) material_rules"
  "subseq (map rule_name (generateSafetyOptimizations a)) safety_rules"
  unfolding generateSpeedOptimizations_def generateQualityOptimizations_def
    generateMaterialOptimizations_def generateSafetyOptimizations_def
    speed_rules_def quality_rules_def material_rules_def safety_rules_def map_append
  by (intro subseq_app speed_rule_names quality_rule_names material_rule_names
        safety_rule_names)+

lemma subseq_if: "subseq xs ys \<Longrightarrow> subseq (if c then xs else []) ys"
  by simp

lemma collect_rule_names:
  "subseq (map rule_name (collectSuggestions a p))
     (speed_rules @ quality_rules @ material_rules @ safety_rules)"
  unfolding collectSuggestions_def map_append if_distrib[of "map rule_name"] list.map
  by (intro list_emb_append_mono subseq_if generator_rule_names)

lemma all_rules_distinct:
  "distinct (speed_rules @ quality_rules @ material_rules @ safety_rules)"
  by (simp add: speed_rules_def quality_rules_def material_rules_def safety_rules_def)

text \<open>
  C7, as the source has it: no two entries of the list returned by generateOptimizations
  are the same suggestion; indeed no two share both category and title, since every rule
  runs once and has its own pair.
\<close>

theorem suggestions_distinct:
  "distinct (map rule_name (generateOptimizations a p)) \<and> distinct (generateOptimizations a p)"
proof -
  have "distinct (map rule_name (collectSuggestions a p))"
    using collect_rule_names all_rules_distinct by (rule subseq_distinct)
  then have "distinct (map rule_name (generateOptimizations a p))"
    by (simp add: generateOptimizations_def rankSuggestions_sort_key distinct_map
          flip: set_mset_mset)
  then show ?thesis by (simp add: distinct_map)
qed

lemma hot_fields:
  "profile_field layer_height hot_analysis = Some 0.1"
  "profile_field infill_density hot_analysis = Some 30"
  "profile_field temperature_nozzle hot_analysis = Some 290"
  "profile_field temperature_bed hot_analysis = None"
  "profile_field print_speed hot_analysis = None"
  "profile_field wall_count hot_analysis = None"
  "profile_field extrusion_width hot_analysis = None"
  "has_support hot_analysis = False"
  "has_bridging hot_analysis = False"
  "geometry_time_estimate hot_analysis = Some 600"
  "geometry_total_filament hot_analysis = None"
  by (simp_all add: hot_analysis_def hot_profile_def sample_analysis_def profile_field_def
        has_support_def has_bridging_def geometry_time_estimate_def geometry_total_filament_def)

lemma hot_rule_names:
  "map rule_name (generateOptimizations hot_analysis material_first)
     = [(Material, ''Reduce Infill Density''), (Speed, ''Increase Layer Height''),
        (Safety, ''High Temperature Warning''), (Speed, ''Reduce Infill Density'')]"
  by (simp add: generateOptimizations_def collectSuggestions_def rankSuggestions_def
      array_sort_def rank_compare_def priorityMatch_def material_first_def
      generateSpeedOptimizations_def generateMaterialOptimizations_def
      generateSafetyOptimizations_def generateQualityOptimizations_def
      speed_layer_height_def speed_infill_def speed_print_speed_def speed_support_def
      material_infill_def material_wall_thickness_def material_support_def material_hollow_def
      safety_nozzle_def safety_bed_def safety_long_print_def hot_fields
      truthy_def constraint_field_def or_zero_def rule_name_def Let_def)

text \<open>
  C7. The absence of duplicates is stated to follow from mutually exclusive rule
  predicates. The predicates overlap: with infill density 30 both the Speed rule (above
  25) and the Material rule (above 20) fire, and the returned list holds two suggestions
  titled Reduce Infill Density.
\<close>

theorem overlapping_rules_counterexample:
  "speed_infill hot_analysis \<noteq> [] \<and> material_infill hot_analysis \<noteq> []
   \<and> map rule_name (generateOptimizations hot_analysis material_first)
     = [(Material, ''Reduce Infill Density''), (Speed, ''Increase Layer Height''),
        (Safety, ''High Temperature Warning''), (Speed, ''Reduce Infill Density'')]
   \<and> \<not> distinct (map title (generateOptimizations hot_analysis material_first))"
proof -
  have t: "map title (generateOptimizations hot_analysis material_first)
      = map snd (map rule_name (generateOptimizations hot_analysis material_first))"
    by (simp add: rule_name_def comp_def)
  have "\<not> distinct (map title (generateOptimizations hot_analysis material_first))"
    unfolding t hot_rule_names by simp
  moreover have "speed_infill hot_analysis \<noteq> []" "material_infill hot_analysis \<noteq> []"
    by (simp_all add: speed_infill_def material_infill_def hot_fields Let_def)
  ultimately show ?thesis using hot_rule_names by blast
qed

lemma analyzeForIssues_score:
  "score (analyzeForIssues a) =
     max 0 (100 - (if has_bridging a then 10 else 0) - (if has_support a then 5 else 0)
       - (if (\<exists>t. profile_field temperature_nozzle a = Some t \<and> t \<noteq> 0 \<and> t > 280) then 20 else 0)
       - (if (\<exists>h. profile_field layer_height a = Some h \<and> h \<noteq> 0 \<and> h < 0.1) then 15 else 0))"
proof -
  have 1: "score (check_bridging a r) = score r - (if has_bridging a then 10 else 0)" for r
    by (simp add: check_bridging_def)
  have 2: "score (check_supports a r) = score r - (if has_support a then 5 else 0)" for r
    by (simp add: check_supports_def)
  have 3: "score (check_temperature a r) = score r -
      (if (\<exists>t. profile_field temperature_nozzle a = Some t \<and> t \<noteq> 0 \<and> t > 280) then 20 else 0)" for r
    by (cases "profile_field temperature_nozzle a") (simp_all add: check_temperature_def)
  have 4: "score (check_thin_layers a r) = score r -
      (if (\<exists>h. profile_field layer_height a = Some h \<and> h \<noteq> 0 \<and> h < 0.1) then 15 else 0)" for r
    by (cases "profile_field layer_height a") (simp_all add: check_thin_layers_def)
  show ?thesis
    unfolding analyzeForIssues_def Let_def 1 2 3 4 by simp
qed

lemma issues_mono:
  "set (issues r) \<subseteq> set (issues (check_thin_layers a r))"
  by (auto simp: check_thin_layers_def split: option.splits)

lemma temperature_issue:
  assumes "profile_field temperature_nozzle a = Some t" "t > 280"
  shows "\<exists>i \<in> set (issues (analyzeForIssues a)).
           issue_type i = IssueError \<and> issue_category i = ''Temperature''"
proof -
  define r where "r = check_supports a (check_bridging a \<lparr>issues = [], score = 100\<rparr>)"
  have "\<exists>i \<in> set (issues (check_temperature a r)).
           issue_type i = IssueError \<and> issue_category i = ''Temperature''"
    using assms by (simp add: check_temperature_def)
  then have "\<exists>i \<in> set (issues (check_thin_layers a (check_temperature a r))).
           issue_type i = IssueError \<and> issue_category i = ''Temperature''"
    using issues_mono by blast
  then show ?thesis by (simp add: analyzeForIssues_def Let_def r_def)
qed

lemma safety_nozzle_fires:
  assumes "profile_field temperature_nozzle a = Some t" "t > 250"
  shows "\<exists>s \<in> set (safety_nozzle a). category s = Safety \<and> impact s = High"
  using assms by (simp add: safety_nozzle_def)

text \<open>
  C5. Whatever the requested profile, every suggestion of generateSafetyOptimizations is in
  the list returned by generateOptimizations. With nozzle temperature 290 that list holds a
  Safety suggestion of impact High, analyzeForIssues reports the temperature error, and
  its score carries a penalty of 20: it is 100 minus the other penalties minus 20, and 20
  below the score of the same analysis with any nozzle temperature of at most 280.
\<close>

theorem safety_always_generated:
  "mset (generateSafetyOptimizations a) \<subseteq># mset (generateOptimizations a p)
   \<and> (profile_field temperature_nozzle a = Some 290 \<longrightarrow>
        (\<exists>s \<in> set (generateOptimizations a p). category s = Safety \<and> impact s = High)
        \<and> (\<exists>i \<in> set (issues (analyzeForIssues a)).
              issue_type i = IssueError \<and> issue_category i = ''Temperature'')
        \<and> score (analyzeForIssues a) =
            100 - (if has_bridging a then 10 else 0) - (if has_support a then 5 else 0) - 20
              - (if (\<exists>h. profile_field layer_height a = Some h \<and> h \<noteq> 0 \<and> h < 0.1)
                 then 15 else 0))
   \<and> (\<forall>p0 t. profile a = Some p0 \<and> temperature_nozzle p0 = Some 290 \<and> t \<le> 280 \<longrightarrow>
        score (analyzeForIssues a)
          = score (analyzeForIssues (a\<lparr>profile := Some (p0\<lparr>temperature_nozzle := Some t\<rparr>)\<rparr>)) - 20)"
proof (intro conjI impI allI)
  have m: "mset (generateOptimizations a p) = mset (collectSuggestions a p)"
    by (simp add: generateOptimizations_def rankSuggestions_sort_key)
  show "mset (generateSafetyOptimizations a) \<subseteq># mset (generateOptimizations a p)"
    unfolding m collectSuggestions_def by simp
  have s: "set (generateSafetyOptimizations a) \<subseteq> set (generateOptimizations a p)"
    using mset_eq_setD[OF m] by (auto simp: collectSuggestions_def)
  assume t: "profile_field temperature_nozzle a = Some 290"
  from safety_nozzle_fires[OF t] s
  show "\<exists>s \<in> set (generateOptimizations a p). category s = Safety \<and> impact s = High"
    by (auto simp: generateSafetyOptimizations_def)
  from temperature_issue[OF t]
  show "\<exists>i \<in> set (issues (analyzeForIssues a)).
              issue_type i = IssueError \<and> issue_category i = ''Temperature''" by simp
  show "score (analyzeForIssues a) =
            100 - (if has_bridging a then 10 else 0) - (if has_support a then 5 else 0) - 20
              - (if (\<exists>h. profile_field layer_height a = Some h \<and> h \<noteq> 0 \<and> h < 0.1)
                 then 15 else 0)"
    unfolding analyzeForIssues_score t by simp
next
  fix p0 :: SlicerProfile and t :: real
  assume h: "profile a = Some p0 \<and> temperature_nozzle p0 = Some 290 \<and> t \<le> 280"
  let ?b = "a\<lparr>profile := Some (p0\<lparr>temperature_nozzle := Some t\<rparr>)\<rparr>"
  have ta: "profile_field temperature_nozzle a = Some 290"
    and tb: "profile_field temperature_nozzle ?b = Some t"
    and lh: "profile_field layer_height ?b = profile_field layer_height a"
    and sb: "has_support ?b = has_support a" "has_bridging ?b = has_bridging a"
    using h by (simp_all add: profile_field_def has_support_def has_bridging_def)
  show "score (analyzeForIssues a) = score (analyzeForIssues ?b) - 20"
    unfolding analyzeForIssues_score ta tb lh sb using h by simp
qed

theorem safety_always_generated_witness:
  "(\<exists>s \<in> set (generateOptimizations hot_analysis material_first).
       category s = Safety \<and> impact s = High)
   \<and> score (analyzeForIssues hot_analysis) = 80"
proof -
  note f = safety_always_generated[of hot_analysis material_first]
  have t: "profile_field temperature_nozzle hot_analysis = Some 290" by (rule hot_fields)
  have l: "(\<exists>h. profile_field layer_height hot_analysis = Some h \<and> h \<noteq> 0 \<and> h < 0.1) = False"
    unfolding hot_fields by simp
  from f t have "\<exists>s \<in> set (generateOptimizations hot_analysis material_first).
       category s = Safety \<and> impact s = High" by blast
  moreover from f t have "score (analyzeForIssues hot_analysis) =
            100 - (if has_bridging hot_analysis then 10 else 0)
              - (if has_support hot_analysis then 5 else 0) - 20
              - (if (\<exists>h. profile_field layer_height hot_analysis = Some h \<and> h \<noteq> 0 \<and> h < 0.1)
                 then 15 else 0)" by blast
  then have "score (analyzeForIssues hot_analysis) = 80"
    unfolding l hot_fields by simp
  ultimately show ?thesis by blast
qed

theorem ranking_is_stable_sort_witness:
  "map rule_name (generateOptimizations hot_analysis material_first)
     = [(Material, ''Reduce Infill Density''), (Speed, ''Increase Layer Height''),
        (Safety, ''High Temperature Warning''), (Speed, ''Reduce Infill Density'')]
   \<and> impactScore (impact (generateOptimizations hot_analysis material_first ! 3))
      \<le> impactScore (impact (generateOptimizations hot_analysis material_first ! 2))"
proof -
  let ?r = "generateOptimizations hot_analysis material_first"
  note f = ranking_is_stable_sort[of hot_analysis material_first]
  have len: "length ?r = 4" using hot_rule_names[THEN arg_cong, of length] by simp
  have nth: "category (?r ! i) = fst (map rule_name ?r ! i)" if "i < 4" for i
    using that len by (simp add: rule_name_def)
  have c: "category (?r ! 2) = Safety" "category (?r ! 3) = Speed"
    using nth[of 2] nth[of 3] by (simp_all add: hot_rule_names)
  have pm: "priority material_first = ''material''" by (simp add: material_first_def)
  have m: "\<not> priorityMatch material_first (?r ! 2)" "\<not> priorityMatch material_first (?r ! 3)"
    by (simp_all add: priorityMatch_def c pm)
  from f have "(2::nat) < 3 \<and> 3 < length ?r
        \<and> priorityMatch material_first (?r ! 2) = priorityMatch material_first (?r ! 3)
        \<longrightarrow> impactScore (impact (?r ! 3)) \<le> impactScore (impact (?r ! 2))" by blast
  with m len have "impactScore (impact (?r ! 3)) \<le> impactScore (impact (?r ! 2))" by simp
  then show ?thesis using hot_rule_names by simp
qed

section \<open>Properties of the processing map\<close>


















section \<open>Properties of the command parser\<close>

lemmas char_class_defs =
  is_space_def is_line_terminator_def is_digit_def is_upper_def is_num_char_def is_blank_def

lemmas parse_defs = parseGCodeCommand_def js_trim_def split_comment_def index_of_def
  match_command_def collect_params_def parseFloat_def digits_value_def digit_val_def Let_def

lemmas spec_parse_defs = spec_parse_def spec_decimal_def spec_signed_def js_trim_def
  digits_value_def digit_val_def Let_def

text \<open>
  Runs of characters, and what parseFloat reads from a number of the grammar.
\<close>

lemma takeWhile_run:
  assumes "\<forall>x \<in> set xs. P x" and "ys = [] \<or> \<not> P (hd ys)"
  shows "takeWhile P (xs @ ys) = xs" and "dropWhile P (xs @ ys) = ys"
proof -
  from assms(2) have base: "takeWhile P ys = []" "dropWhile P ys = ys"
    by (cases ys; auto)+
  from assms(1) show "takeWhile P (xs @ ys) = xs" by (induction xs) (simp_all add: base)
  from assms(1) show "dropWhile P (xs @ ys) = ys" by (induction xs) (simp_all add: base)
qed

lemma takeWhile_all: "\<forall>x \<in> set xs. P x \<Longrightarrow> takeWhile P xs = xs \<and> dropWhile P xs = []"
  by (induction xs) simp_all

lemma digit_not_minus: "is_digit c \<Longrightarrow> c \<noteq> CHR ''-''"
  by (auto simp: is_digit_def)

lemma dot_not_digit: "\<not> is_digit CHR ''.''"
  by (simp add: is_digit_def)

lemma spec_decimal_shape:
  assumes "spec_decimal s = Some v"
  shows "\<exists>ip fp. ip \<noteq> [] \<and> (\<forall>c \<in> set ip. is_digit c) \<and> (\<forall>c \<in> set fp. is_digit c)
           \<and> s = ip @ (if fp = [] then [] else CHR ''.'' # fp)
           \<and> v = real (digits_value ip) + real (digits_value fp) / 10 ^ length fp"
proof -
  define ip where "ip = takeWhile is_digit s"
  define r where "r = dropWhile is_digit s"
  have s: "s = ip @ r" by (simp add: ip_def r_def)
  have ipd: "\<forall>c \<in> set ip. is_digit c" unfolding ip_def by (auto dest: set_takeWhileD)
  from assms have a:
    "(if ip = [] then None
      else (case r of
              [] \<Rightarrow> Some (real (digits_value ip))
            | c # fp \<Rightarrow>
                if c = CHR ''.'' \<and> fp \<noteq> [] \<and> list_all is_digit fp
                then Some (real (digits_value ip) + real (digits_value fp) / 10 ^ length fp)
                else None)) = Some v"
    unfolding spec_decimal_def Let_def ip_def r_def .
  then have ne: "ip \<noteq> []" by (auto split: if_splits)
  show ?thesis
  proof (cases r)
    case Nil
    with a ne have "v = real (digits_value ip)" by simp
    with Nil s ne ipd show ?thesis
      by (intro exI[of _ ip] exI[of _ "[]"]) (simp add: digits_value_def)
  next
    case (Cons c fp)
    with a ne have c: "c = CHR ''.''" "fp \<noteq> []" "list_all is_digit fp"
      "v = real (digits_value ip) + real (digits_value fp) / 10 ^ length fp"
      by (auto split: if_splits)
    with Cons s ne ipd show ?thesis
      by (intro exI[of _ ip] exI[of _ fp]) (simp add: list_all_iff)
  qed
qed

lemma parseFloat_digits:
  assumes "ip \<noteq> []" "\<forall>c \<in> set ip. is_digit c" "\<forall>c \<in> set fp. is_digit c"
    and "body = ip @ (if fp = [] then [] else CHR ''.'' # fp)"
  shows "(let ip' = takeWhile is_digit body; r1 = dropWhile is_digit body;
              fp' = (case r1 of [] \<Rightarrow> [] | c # r2 \<Rightarrow>
                       if c = CHR ''.'' then takeWhile is_digit r2 else [])
          in (ip', fp')) = (ip, fp)"
proof (cases "fp = []")
  case True
  with assms(4) have b: "body = ip" by simp
  from takeWhile_all[of ip is_digit] assms(2)
  have ta: "takeWhile is_digit ip = ip" "dropWhile is_digit ip = []" by blast+
  show ?thesis unfolding b Let_def ta using True by simp
next
  case False
  with assms(4) have b: "body = ip @ CHR ''.'' # fp" by simp
  have t: "takeWhile is_digit (ip @ CHR ''.'' # fp) = ip"
    "dropWhile is_digit (ip @ CHR ''.'' # fp) = CHR ''.'' # fp"
    using assms(2) by (auto intro!: takeWhile_run simp: dot_not_digit)
  from takeWhile_all[of fp is_digit] assms(3)
  have tf: "takeWhile is_digit fp = fp" by blast
  show ?thesis unfolding b Let_def t by (simp add: tf)
qed

lemma parseFloat_decimal_text:
  assumes "ip \<noteq> []" "\<forall>c \<in> set ip. is_digit c" "\<forall>c \<in> set fp. is_digit c"
  shows "parseFloat (ip @ (if fp = [] then [] else CHR ''.'' # fp))
           = Fin (real (digits_value ip) + real (digits_value fp) / 10 ^ length fp)"
proof -
  define body where "body = ip @ (if fp = [] then [] else CHR ''.'' # fp)"
  from assms have hd: "body \<noteq> []" "hd body \<noteq> CHR ''-''"
    unfolding body_def by (cases ip; auto dest: digit_not_minus)+
  from parseFloat_digits[OF assms body_def]
  have e: "takeWhile is_digit body = ip"
    "(case dropWhile is_digit body of [] \<Rightarrow> [] | c # r2 \<Rightarrow>
         if c = CHR ''.'' then takeWhile is_digit r2 else []) = fp"
    by (simp_all add: Let_def)
  show ?thesis
    unfolding body_def[symmetric] parseFloat_def Let_def using hd assms(1) by (simp add: e)
qed

lemma parseFloat_neg_decimal_text:
  assumes "ip \<noteq> []" "\<forall>c \<in> set ip. is_digit c" "\<forall>c \<in> set fp. is_digit c"
  shows "parseFloat (CHR ''-'' # ip @ (if fp = [] then [] else CHR ''.'' # fp))
           = Fin (- (real (digits_value ip) + real (digits_value fp) / 10 ^ length fp))"
proof -
  define body where "body = ip @ (if fp = [] then [] else CHR ''.'' # fp)"
  from parseFloat_digits[OF assms body_def]
  have e: "takeWhile is_digit body = ip"
    "(case dropWhile is_digit body of [] \<Rightarrow> [] | c # r2 \<Rightarrow>
         if c = CHR ''.'' then takeWhile is_digit r2 else []) = fp"
    by (simp_all add: Let_def)
  show ?thesis
    unfolding body_def[symmetric] parseFloat_def Let_def using assms(1) by (simp add: e)
qed

lemma parseFloat_spec_decimal: "spec_decimal s = Some v \<Longrightarrow> parseFloat s = Fin v"
  using spec_decimal_shape[of s v] parseFloat_decimal_text by blast

lemma parseFloat_spec_signed:
  assumes "spec_signed s = Some v"
  shows "parseFloat s = Fin v"
proof (cases s)
  case Nil with assms show ?thesis by (simp add: spec_signed_def)
next
  case (Cons c r)
  show ?thesis
  proof (cases "c = CHR ''-''")
    case True
    with assms Cons obtain u where u: "spec_decimal r = Some u" "v = - u"
      by (auto simp: spec_signed_def)
    from spec_decimal_shape[OF u(1)] parseFloat_neg_decimal_text u(2) Cons True
    show ?thesis by auto
  next
    case False
    with assms Cons have "spec_decimal s = Some v" by (simp add: spec_signed_def)
    then show ?thesis by (rule parseFloat_spec_decimal)
  qed
qed

lemma spec_signed_nonempty: "spec_signed s = Some v \<Longrightarrow> s \<noteq> []"
  by (auto simp: spec_signed_def)

text \<open>
  On a parameter text that the grammar accepts, the scan of the source finds the same
  pairs with the same values, and the text holds no line terminator.
\<close>

lemma spec_params_scan:
  "spec_params s = Some pairs \<Longrightarrow>
   map (\<lambda>(l, txt). (l, parseFloat txt)) (scan_params s) = map (\<lambda>(l, v). (l, Fin v)) pairs"
proof (induction s arbitrary: pairs rule: spec_params.induct)
  case 1
  then show ?case by simp
next
  case (2 c cs)
  show ?case
  proof (cases "is_blank c")
    case True
    then have nu: "\<not> is_upper c" by (auto simp: is_blank_def is_upper_def)
    from True "2.prems" have "spec_params cs = Some pairs" by simp
    from "2.IH"(1)[OF True this] nu show ?thesis by simp
  next
    case False
    with "2.prems" have up: "is_upper c" by (auto split: if_splits)
    from False up "2.prems" obtain v rest where
      v: "spec_signed (takeWhile is_num_char cs) = Some v"
      and rest: "spec_params (dropWhile is_num_char cs) = Some rest"
      and pairs: "pairs = (c, v) # rest"
      by (auto split: option.splits)
    from "2.IH"(2)[OF False up v rest]
    have ih: "map (\<lambda>(l, txt). (l, parseFloat txt)) (scan_params (dropWhile is_num_char cs))
                = map (\<lambda>(l, v). (l, Fin v)) rest" .
    from spec_signed_nonempty[OF v] have ne: "takeWhile is_num_char cs \<noteq> []" .
    from up ne ih parseFloat_spec_signed[OF v] pairs show ?thesis by simp
  qed
qed

lemma num_char_not_terminator: "is_num_char c \<Longrightarrow> \<not> is_line_terminator c"
  by (auto simp: char_class_defs)

lemma spec_params_no_terminator:
  "spec_params s = Some pairs \<Longrightarrow> \<forall>c \<in> set s. \<not> is_line_terminator c"
proof (induction s arbitrary: pairs rule: spec_params.induct)
  case 1
  then show ?case by simp
next
  case (2 c cs)
  show ?case
  proof (cases "is_blank c")
    case True
    then have c: "\<not> is_line_terminator c" by (auto simp: char_class_defs)
    from True "2.prems" have "spec_params cs = Some pairs" by simp
    from "2.IH"(1)[OF True this] c show ?thesis by simp
  next
    case False
    with "2.prems" have up: "is_upper c" by (auto split: if_splits)
    then have c: "\<not> is_line_terminator c" by (auto simp: char_class_defs)
    from False up "2.prems" obtain v rest where
      v: "spec_signed (takeWhile is_num_char cs) = Some v"
      and rest: "spec_params (dropWhile is_num_char cs) = Some rest"
      by (auto split: option.splits)
    from "2.IH"(2)[OF False up v rest]
    have d: "\<forall>x \<in> set (dropWhile is_num_char cs). \<not> is_line_terminator x" .
    have t: "\<forall>x \<in> set (takeWhile is_num_char cs). \<not> is_line_terminator x"
      by (auto dest: set_takeWhileD num_char_not_terminator)
    have "set cs = set (takeWhile is_num_char cs) \<union> set (dropWhile is_num_char cs)"
      by (metis set_append takeWhile_dropWhile_id)
    with c d t show ?thesis by auto
  qed
qed

lemma collect_params_map_of:
  "foldl (\<lambda>m (k, v). m(k \<mapsto> f v)) m0 xs = m0 ++ map_of (rev (map (\<lambda>(k, v). (k, f v)) xs))"
proof (induction xs arbitrary: m0)
  case Nil then show ?case by simp
next
  case (Cons x xs)
  obtain k v where x: "x = (k, v)" by (cases x)
  have "foldl (\<lambda>m (k, v). m(k \<mapsto> f v)) m0 (x # xs)
          = foldl (\<lambda>m (k, v). m(k \<mapsto> f v)) (m0(k \<mapsto> f v)) xs"
    by (simp add: x)
  also have "\<dots> = (m0(k \<mapsto> f v)) ++ map_of (rev (map (\<lambda>(k, v). (k, f v)) xs))"
    by (rule Cons.IH)
  also have "\<dots> = m0 ++ map_of (rev (map (\<lambda>(k, v). (k, f v)) (x # xs)))"
    by (rule ext) (simp add: x map_of_append map_add_def split: option.splits)
  finally show ?case .
qed

text \<open>
  Trimming, and the command and comment texts.
\<close>

lemma js_trim_ends:
  "js_trim s = [] \<or> (\<not> is_space (hd (js_trim s)) \<and> \<not> is_space (last (js_trim s)))"
proof (cases "js_trim s = []")
  case True then show ?thesis by simp
next
  case False
  define a where "a = dropWhile is_space s"
  define b where "b = dropWhile is_space (rev a)"
  have r: "js_trim s = rev b" by (simp add: js_trim_def a_def b_def)
  with False have bne: "b \<noteq> []" by simp
  then have hb: "\<not> is_space (hd b)" unfolding b_def by (rule hd_dropWhile)
  have "rev a = takeWhile is_space (rev a) @ b" by (simp add: b_def)
  then have a: "a = rev b @ rev (takeWhile is_space (rev a))"
    by (metis rev_append rev_rev_ident)
  with bne have "a \<noteq> []" by auto
  then have "\<not> is_space (hd a)" unfolding a_def by (rule hd_dropWhile)
  moreover from a bne have "hd a = hd (rev b)" by (metis hd_append2 rev_is_Nil_conv)
  ultimately have "\<not> is_space (hd (js_trim s))" by (simp add: r)
  moreover from hb bne have "\<not> is_space (last (js_trim s))" by (simp add: r last_rev)
  ultimately show ?thesis by simp
qed

lemma js_trim_fixed:
  assumes "s = [] \<or> (\<not> is_space (hd s) \<and> \<not> is_space (last s))"
  shows "js_trim s = s"
proof (cases s)
  case Nil then show ?thesis by (simp add: js_trim_def)
next
  case (Cons c cs)
  with assms have h: "\<not> is_space c" and l: "\<not> is_space (last s)" by auto
  from h Cons have 1: "dropWhile is_space s = s" by simp
  from l have "\<not> is_space (hd (rev s))" unfolding hd_rev .
  then have 2: "dropWhile is_space (rev s) = rev s"
    by (simp only: dropWhile_eq_self_iff) blast
  show ?thesis by (simp add: js_trim_def 1 2)
qed

lemma js_trim_idem: "js_trim (js_trim s) = js_trim s"
  by (rule js_trim_fixed) (rule js_trim_ends)

lemma split_comment_eq:
  assumes "trimmed \<noteq> []" "hd trimmed \<noteq> CHR '';''"
  shows "split_comment trimmed =
           (if CHR '';'' \<in> set trimmed
            then (js_trim (takeWhile (\<lambda>c. c \<noteq> CHR '';'') trimmed),
                  js_trim (drop 1 (dropWhile (\<lambda>c. c \<noteq> CHR '';'') trimmed)))
            else (trimmed, []))"
proof (cases "CHR '';'' \<in> set trimmed")
  case False
  then show ?thesis by (simp add: split_comment_def index_of_def)
next
  case True
  let ?n = "length (takeWhile (\<lambda>c. c \<noteq> CHR '';'') trimmed)"
  from assms have pos: "0 < ?n" by (cases trimmed) auto
  have t: "take ?n trimmed = takeWhile (\<lambda>c. c \<noteq> CHR '';'') trimmed"
    by (rule takeWhile_eq_take[symmetric])
  have d: "drop (Suc ?n) trimmed = drop (Suc 0) (dropWhile (\<lambda>c. c \<noteq> CHR '';'') trimmed)"
    by (simp add: dropWhile_eq_drop)
  have idx: "index_of CHR '';'' trimmed = int ?n" using True by (simp add: index_of_def)
  show ?thesis unfolding split_comment_def Let_def idx using True pos by (simp add: t d)
qed

lemma command_text_eq:
  assumes "js_trim line \<noteq> []" "hd (js_trim line) \<noteq> CHR '';''"
  shows "split_comment (js_trim line)
           = (js_trim (takeWhile (\<lambda>c. c \<noteq> CHR '';'') (js_trim line)),
              js_trim (drop 1 (dropWhile (\<lambda>c. c \<noteq> CHR '';'') (js_trim line))))"
proof (cases "CHR '';'' \<in> set (js_trim line)")
  case True
  then show ?thesis by (simp add: split_comment_eq[OF assms])
next
  case False
  then have "\<forall>x \<in> set (js_trim line). x \<noteq> CHR '';''" by auto
  from takeWhile_all[OF this]
  have tw: "takeWhile (\<lambda>c. c \<noteq> CHR '';'') (js_trim line) = js_trim line"
    and dw: "dropWhile (\<lambda>c. c \<noteq> CHR '';'') (js_trim line) = []" by blast+
  have e: "js_trim [] = []" by (simp add: js_trim_def)
  show ?thesis unfolding tw dw using False by (simp add: split_comment_eq[OF assms] js_trim_idem e)
qed

lemma match_command_None_iff:
  "match_command c = None \<longleftrightarrow>
     \<not> (\<exists>t ds rest. c = t # ds @ rest \<and> t \<in> set ''GMTF'' \<and> ds \<noteq> []
                     \<and> (\<forall>d \<in> set ds. is_digit d))"
proof (cases c)
  case Nil then show ?thesis by (simp add: match_command_def)
next
  case (Cons t r)
  show ?thesis
  proof (cases "t \<in> set ''GMTF''")
    case False
    with Cons show ?thesis by (auto simp: match_command_def)
  next
    case True
    have some: "match_command c \<noteq> None" if "takeWhile is_digit r \<noteq> []"
      using that True Cons by (auto simp: match_command_def Let_def split: list.splits)
    have none: "match_command c = None" if "takeWhile is_digit r = []"
      using that True Cons by (simp add: match_command_def Let_def)
    show ?thesis
    proof (cases "takeWhile is_digit r = []")
      case e: True
      have "\<not> (\<exists>t ds rest. c = t # ds @ rest \<and> t \<in> set ''GMTF'' \<and> ds \<noteq> []
                     \<and> (\<forall>d \<in> set ds. is_digit d))"
      proof
        assume "\<exists>t ds rest. c = t # ds @ rest \<and> t \<in> set ''GMTF'' \<and> ds \<noteq> []
                     \<and> (\<forall>d \<in> set ds. is_digit d)"
        then obtain t' ds rest where h: "c = t' # ds @ rest" "ds \<noteq> []" "\<forall>d \<in> set ds. is_digit d"
          by blast
        with Cons have "r = ds @ rest" by simp
        with h(2,3) have "takeWhile is_digit r \<noteq> []" by (cases ds) auto
        with e show False by simp
      qed
      with none[OF e] show ?thesis by simp
    next
      case ne: False
      have "c = t # takeWhile is_digit r @ dropWhile is_digit r" using Cons by simp
      moreover have "\<forall>d \<in> set (takeWhile is_digit r). is_digit d" by (auto dest: set_takeWhileD)
      ultimately have "\<exists>t ds rest. c = t # ds @ rest \<and> t \<in> set ''GMTF'' \<and> ds \<noteq> []
                     \<and> (\<forall>d \<in> set ds. is_digit d)"
        using True ne by blast
      with some[OF ne] show ?thesis by simp
    qed
  qed
qed

text \<open>
  The command regular expression on a command text of the grammar.
\<close>

lemma match_command_spec:
  assumes t: "t \<in> set ''GMTF''"
    and v: "spec_decimal (takeWhile (\<lambda>c. is_digit c \<or> c = CHR ''.'') r) = Some v"
    and p: "spec_params (dropWhile (\<lambda>c. is_digit c \<or> c = CHR ''.'') r) = Some pairs"
  shows "match_command (t # r)
           = Some (t, takeWhile (\<lambda>c. is_digit c \<or> c = CHR ''.'') r,
                   dropWhile (\<lambda>c. is_digit c \<or> c = CHR ''.'') r)"
proof -
  define numtxt where "numtxt = takeWhile (\<lambda>c. is_digit c \<or> c = CHR ''.'') r"
  define rest where "rest = dropWhile (\<lambda>c. is_digit c \<or> c = CHR ''.'') r"
  have r: "r = numtxt @ rest" by (simp add: numtxt_def rest_def)
  have rest_hd: "rest = [] \<or> \<not> (is_digit (hd rest) \<or> hd rest = CHR ''.'')"
    unfolding rest_def using hd_dropWhile[of "\<lambda>c. is_digit c \<or> c = CHR ''.''" r] by blast
  from spec_params_no_terminator[OF p[folded rest_def]]
  have nt: "takeWhile (\<lambda>x. \<not> is_line_terminator x) rest = rest"
    using takeWhile_all[of rest "\<lambda>x. \<not> is_line_terminator x"] by blast
  from spec_decimal_shape[OF v[folded numtxt_def]] obtain ip fp where
    ip: "ip \<noteq> []" "\<forall>c \<in> set ip. is_digit c" and fp: "\<forall>c \<in> set fp. is_digit c"
    and shape: "numtxt = ip @ (if fp = [] then [] else CHR ''.'' # fp)" by blast
  show ?thesis
  proof (cases "fp = []")
    case True
    with shape r have r': "r = ip @ rest" by simp
    from rest_hd have "rest = [] \<or> \<not> is_digit (hd rest)" by blast
    from takeWhile_run[OF ip(2) this]
    have tw: "takeWhile is_digit r = ip" and dw: "dropWhile is_digit r = rest"
      unfolding r' by simp_all
    have nd: "rest \<noteq> [] \<Longrightarrow> hd rest \<noteq> CHR ''.''" using rest_hd by blast
    have "match_command (t # r) = Some (t, ip, rest)"
      unfolding match_command_def Let_def using t ip(1) nd nt
      by (cases rest) (simp_all add: tw dw)
    with True shape show ?thesis by (simp add: numtxt_def[symmetric] rest_def[symmetric])
  next
    case False
    with shape r have r': "r = ip @ CHR ''.'' # fp @ rest" by simp
    from takeWhile_run[OF ip(2), of "CHR ''.'' # fp @ rest"]
    have tw: "takeWhile is_digit r = ip" and dw: "dropWhile is_digit r = CHR ''.'' # fp @ rest"
      unfolding r' by (simp_all add: dot_not_digit)
    from rest_hd have "rest = [] \<or> \<not> is_digit (hd rest)" by blast
    from takeWhile_run[OF fp this]
    have tf: "takeWhile is_digit (fp @ rest) = fp" and df: "dropWhile is_digit (fp @ rest) = rest"
      by simp_all
    have "match_command (t # r) = Some (t, ip @ CHR ''.'' # fp, rest)"
      unfolding match_command_def Let_def using t ip(1) False
      by (simp add: tw dw tf df nt)
    with False shape show ?thesis by (simp add: numtxt_def[symmetric] rest_def[symmetric])
  qed
qed

lemma parse_refines_spec:
  assumes "spec_parse line = Some (t, v, pairs, after)"
  shows "parseGCodeCommand line n =
           Some \<lparr>cmd_type = t, cmd_code = Fin v,
                 params = map_of (rev (map (\<lambda>(l, x). (l, Fin x)) pairs)),
                 cmd_comment = (if js_trim after = [] then None else Some (js_trim after)),
                 lineNumber = n\<rparr>"
proof -
  define trimmed where "trimmed = js_trim line"
  define command where "command = js_trim (takeWhile (\<lambda>c. c \<noteq> CHR '';'') trimmed)"
  from assms have ne: "trimmed \<noteq> []" "hd trimmed \<noteq> CHR '';''"
    unfolding spec_parse_def Let_def trimmed_def by (auto split: if_splits)
  from assms ne have a:
    "(case command of
        [] \<Rightarrow> None
      | t # r \<Rightarrow>
          if t \<in> set ''GMTF'' then
            (case spec_decimal (takeWhile (\<lambda>c. is_digit c \<or> c = CHR ''.'') r) of
               None \<Rightarrow> None
             | Some v \<Rightarrow>
                 (case spec_params (dropWhile (\<lambda>c. is_digit c \<or> c = CHR ''.'') r) of
                    None \<Rightarrow> None
                  | Some pairs \<Rightarrow>
                      Some (t, v, pairs, drop 1 (dropWhile (\<lambda>c. c \<noteq> CHR '';'') trimmed))))
          else None) = Some (t, v, pairs, after)"
    unfolding spec_parse_def Let_def trimmed_def[symmetric] command_def[symmetric] by simp
  then obtain r where c: "command = t # r" and t: "t \<in> set ''GMTF''"
    and v: "spec_decimal (takeWhile (\<lambda>c. is_digit c \<or> c = CHR ''.'') r) = Some v"
    and p: "spec_params (dropWhile (\<lambda>c. is_digit c \<or> c = CHR ''.'') r) = Some pairs"
    and after: "after = drop 1 (dropWhile (\<lambda>c. c \<noteq> CHR '';'') trimmed)"
    by (cases command) (auto split: if_splits option.splits)
  have sc: "split_comment trimmed = (command, js_trim after)"
    unfolding trimmed_def command_def after
    by (rule command_text_eq) (use ne in \<open>simp_all add: trimmed_def\<close>)
  have mc: "match_command command
              = Some (t, takeWhile (\<lambda>c. is_digit c \<or> c = CHR ''.'') r,
                      dropWhile (\<lambda>c. is_digit c \<or> c = CHR ''.'') r)"
    unfolding c by (rule match_command_spec[OF t v p])
  have code: "parseFloat (takeWhile (\<lambda>c. is_digit c \<or> c = CHR ''.'') r) = Fin v"
    by (rule parseFloat_spec_decimal[OF v])
  have ps: "collect_params (scan_params (dropWhile (\<lambda>c. is_digit c \<or> c = CHR ''.'') r))
              = map_of (rev (map (\<lambda>(l, x). (l, Fin x)) pairs))"
    unfolding collect_params_def collect_params_map_of spec_params_scan[OF p] by simp
  show ?thesis
    unfolding parseGCodeCommand_def Let_def trimmed_def[symmetric]
    using ne by (simp add: sc mc code ps)
qed

lemma parse_None_iff:
  "parseGCodeCommand line n = None \<longleftrightarrow>
     js_trim line = [] \<or> hd (js_trim line) = CHR '';''
     \<or> \<not> (\<exists>t ds rest. js_trim (takeWhile (\<lambda>c. c \<noteq> CHR '';'') (js_trim line)) = t # ds @ rest
             \<and> t \<in> set ''GMTF'' \<and> ds \<noteq> [] \<and> (\<forall>d \<in> set ds. is_digit d))"
proof (cases "js_trim line = [] \<or> hd (js_trim line) = CHR '';''")
  case True
  then show ?thesis by (auto simp: parseGCodeCommand_def Let_def)
next
  case False
  then have ne: "js_trim line \<noteq> []" "hd (js_trim line) \<noteq> CHR '';''" by auto
  have "parseGCodeCommand line n = None \<longleftrightarrow>
          match_command (js_trim (takeWhile (\<lambda>c. c \<noteq> CHR '';'') (js_trim line))) = None"
    unfolding parseGCodeCommand_def Let_def command_text_eq[OF ne] using ne
    by (auto split: option.splits)
  with False show ?thesis unfolding match_command_None_iff by blast
qed

text \<open>
  C8, as the source has it. parseGCodeCommand returns null exactly when the trimmed line
  is empty, starts with a semicolon, or its command text (the trimmed text before the
  first semicolon) does not begin with one of G, M, T, F and a digit; it never fails. For
  every line of the grammar (letter, number, parameter pairs of a letter and an optionally
  negative number) it returns the Command with that letter, that number, the given line
  number, the trimmed text after the first semicolon as comment (none when that is
  empty), and the parameters of the pairs, a later pair overriding an earlier one with the
  same letter; with distinct letters every letter is sent to its number.
\<close>

theorem parse_command_characterisation:
  "(parseGCodeCommand line n = None \<longleftrightarrow>
      js_trim line = [] \<or> hd (js_trim line) = CHR '';''
      \<or> \<not> (\<exists>t ds rest. js_trim (takeWhile (\<lambda>c. c \<noteq> CHR '';'') (js_trim line)) = t # ds @ rest
              \<and> t \<in> set ''GMTF'' \<and> ds \<noteq> [] \<and> (\<forall>d \<in> set ds. is_digit d)))
   \<and> (\<forall>t v pairs after. spec_parse line = Some (t, v, pairs, after) \<longrightarrow>
         parseGCodeCommand line n =
           Some \<lparr>cmd_type = t, cmd_code = Fin v,
                 params = map_of (rev (map (\<lambda>(l, x). (l, Fin x)) pairs)),
                 cmd_comment = (if js_trim after = [] then None else Some (js_trim after)),
                 lineNumber = n\<rparr>
         \<and> (distinct (map fst pairs) \<longrightarrow>
              (\<forall>(l, x) \<in> set pairs.
                 map_of (rev (map (\<lambda>(l, x). (l, Fin x)) pairs)) l = Some (Fin x))))"
proof (intro conjI allI impI)
  show "parseGCodeCommand line n = None \<longleftrightarrow>
      js_trim line = [] \<or> hd (js_trim line) = CHR '';''
      \<or> \<not> (\<exists>t ds rest. js_trim (takeWhile (\<lambda>c. c \<noteq> CHR '';'') (js_trim line)) = t # ds @ rest
              \<and> t \<in> set ''GMTF'' \<and> ds \<noteq> [] \<and> (\<forall>d \<in> set ds. is_digit d))"
    by (rule parse_None_iff)
next
  fix t v pairs after
  assume "spec_parse line = Some (t, v, pairs, after)"
  then show "parseGCodeCommand line n =
           Some \<lparr>cmd_type = t, cmd_code = Fin v,
                 params = map_of (rev (map (\<lambda>(l, x). (l, Fin x)) pairs)),
                 cmd_comment = (if js_trim after = [] then None else Some (js_trim after)),
                 lineNumber = n\<rparr>"
    by (rule parse_refines_spec)
next
  fix pairs :: "(char \<times> real) list"
  assume d: "distinct (map fst pairs)"
  show "\<forall>(l, x) \<in> set pairs. map_of (rev (map (\<lambda>(l, x). (l, Fin x)) pairs)) l = Some (Fin x)"
  proof (clarify)
    fix l x assume "(l, x) \<in> set pairs"
    then have "(l, Fin x) \<in> set (rev (map (\<lambda>(l, x). (l, Fin x)) pairs))" by force
    moreover have "distinct (map fst (rev (map (\<lambda>(l, x). (l, Fin x)) pairs)))"
      using d by (simp add: rev_map[symmetric] comp_def case_prod_beta)
    ultimately show "map_of (rev (map (\<lambda>(l, x). (l, Fin x)) pairs)) l = Some (Fin x)"
      by (rule map_of_is_SomeI[rotated])
  qed
qed

lemma spec_parse_move:
  "spec_parse ''G1 X10 Y-2.5 ; move''
     = Some (CHR ''G'', 1, [(CHR ''X'', 10), (CHR ''Y'', -2.5)], '' move'')"
  by (simp add: spec_parse_defs char_class_defs)

theorem parse_command_characterisation_witness:
  "parseGCodeCommand ''G1 X10 Y-2.5 ; move'' 3
     = Some \<lparr>cmd_type = CHR ''G'', cmd_code = Fin 1,
             params = [CHR ''X'' \<mapsto> Fin 10, CHR ''Y'' \<mapsto> Fin (-2.5)],
             cmd_comment = Some ''move'', lineNumber = 3\<rparr>"
proof -
  from parse_command_characterisation[of "''G1 X10 Y-2.5 ; move''" 3] spec_parse_move
  have "parseGCodeCommand ''G1 X10 Y-2.5 ; move'' 3 =
           Some \<lparr>cmd_type = CHR ''G'', cmd_code = Fin 1,
                 params = map_of (rev (map (\<lambda>(l, x). (l, Fin x))
                            [(CHR ''X'', 10), (CHR ''Y'', -2.5)])),
                 cmd_comment = (if js_trim '' move'' = [] then None else Some (js_trim '' move'')),
                 lineNumber = 3\<rparr>"
    by blast
  moreover have "js_trim '' move'' = ''move''" by (simp add: js_trim_def is_space_def)
  ultimately show ?thesis by simp
qed

text \<open>
  C8. A line that does not match the command grammar is stated to give null. The line
  \<^verbatim>\<open>G1 hello\<close> is not in the grammar, and the source returns the command G1 without
  parameters: only the leading letter and number are required, the rest is scanned for
  pairs and otherwise ignored. The comment is the trimmed text after the semicolon, not
  the text itself.
\<close>

theorem lenient_parse_counterexample:
  "parseGCodeCommand ''G1 hello'' 7
     = Some \<lparr>cmd_type = CHR ''G'', cmd_code = Fin 1, params = Map.empty,
             cmd_comment = None, lineNumber = 7\<rparr>
   \<and> spec_parse ''G1 hello'' = None
   \<and> map_option cmd_comment (parseGCodeCommand ''G1 ; park'' 8) = Some (Some ''park'')
   \<and> spec_parse ''G1 ; park'' = Some (CHR ''G'', 1, [], '' park'')"
  by (simp add: parse_defs spec_parse_defs char_class_defs)

end
